theory Spec2Isabelle
  imports Complex_Main
begin

section \<open>Values and configuration data\<close>

text \<open>
  The values that travel through the configuration (userData.json) and the option bags.
  JavaScript numbers are modelled as reals: finite doubles with exact arithmetic; NaN and
  the infinities are not represented.  The code rounds where the model does not, so a
  result of arithmetic is only ever bounded by what rounding to the nearest double
  preserves: non-strict bounds between representable numbers.  An object is an association list in property
  order.
\<close>

datatype js_value =
    JUndefined
  | JNull
  | JBool bool
  | JNum real
  | JStr string
  | JArr "js_value list"
  | JObj "(string \<times> js_value) list"

text \<open>ToBoolean, as used by \<open>||\<close>, \<open>&&\<close>, \<open>!\<close> and the conditional operator.\<close>

fun js_truthy :: "js_value \<Rightarrow> bool" where
  "js_truthy JUndefined = False"
| "js_truthy JNull = False"
| "js_truthy (JBool b) = b"
| "js_truthy (JNum x) = (x \<noteq> 0)"
| "js_truthy (JStr s) = (s \<noteq> [])"
| "js_truthy (JArr xs) = True"
| "js_truthy (JObj kvs) = True"

definition js_or :: "js_value \<Rightarrow> js_value \<Rightarrow> js_value" where
  "js_or a b = (if js_truthy a then a else b)"


text \<open>\<open>Number.isInteger\<close> on a number.\<close>

definition isInteger :: "real \<Rightarrow> bool" where
  "isInteger x = (of_int \<lfloor>x\<rfloor> = x)"

text \<open>Property read \<open>o.k\<close> and index read \<open>a[i]\<close>; a missing property is \<open>undefined\<close>.\<close>

fun js_get :: "js_value \<Rightarrow> string \<Rightarrow> js_value" where
  "js_get (JObj kvs) k = (case map_of kvs k of Some v \<Rightarrow> v | None \<Rightarrow> JUndefined)"
| "js_get v k = JUndefined"

fun js_index :: "js_value \<Rightarrow> nat \<Rightarrow> js_value" where
  "js_index (JArr xs) i = (if i < length xs then xs ! i else JUndefined)"
| "js_index v i = JUndefined"

text \<open>
  Property write \<open>o[k] = v\<close> on an object held as an association list: an existing
  key keeps its place, a new key goes last.
\<close>

fun obj_set :: "string \<Rightarrow> 'v \<Rightarrow> (string \<times> 'v) list \<Rightarrow> (string \<times> 'v) list" where
  "obj_set k v [] = [(k, v)]"
| "obj_set k v ((k', v') # kvs) =
     (if k = k' then (k, v) # kvs else (k', v') # obj_set k v kvs)"

text \<open>lodash \<open>fromPairs\<close>: the pairs are written into a fresh object one after the other.\<close>

definition fromPairs :: "(string \<times> 'v) list \<Rightarrow> (string \<times> 'v) list" where
  "fromPairs ps = foldl (\<lambda>obj (k, v). obj_set k v obj) [] ps"

text \<open>An OptionValue \<open>{ name, value, randomRange?, randomValues? }\<close>; an absent field is \<open>undefined\<close>.\<close>

record method_option =
  opt_name :: string
  opt_value :: js_value
  opt_randomRange :: js_value
  opt_randomValues :: js_value

text \<open>A MethodCall \<open>{ name, options }\<close>.\<close>

record method_call =
  mc_name :: string
  mc_options :: "method_option list"

type_synonym option_bag = "(string \<times> js_value) list"

section \<open>Surfaces, instances and the observable trace\<close>

text \<open>The inline style written through \<open>cssText\<close>; lengths are percentages.\<close>

record css =
  css_width :: real
  css_height :: real
  css_top :: real
  css_left :: real
  css_zIndex :: int
  css_border :: string

text \<open>
  A pooled DOM element: its class list, the \<open>data-instance-id\<close> tag, its inline style
  (\<open>None\<close> before any \<open>cssText\<close> was written) and \<open>style.visibility = "hidden"\<close>.
\<close>

record element =
  el_classes :: "string list"
  el_instanceId :: "string option"
  el_style :: "css option"
  el_hidden :: bool

text \<open>How a call of \<open>destroy\<close> on an instance behaves.\<close>

datatype destroy_kind = NoDestroy | DestroyReturns | DestroyThrows string

text \<open>
  A live module instance as the orchestrator sees it: the element it was constructed on,
  the property names under which it exposes a function, the methods among them whose call
  fails, and its \<open>destroy\<close>.
\<close>

record live_instance =
  inst_elem :: element
  inst_methods :: "string list"
  inst_failing :: "string list"
  inst_destroy :: destroy_kind

text \<open>
  A module class is its constructor: what the instance built on a given element exposes
  (its function-valued properties, the failing ones among them, its \<open>destroy\<close>), or
  \<open>None\<close> when the constructor throws on that element.
\<close>

type_synonym module_class = "element \<Rightarrow> (string list \<times> string list \<times> destroy_kind) option"

text \<open>\<open>new ModuleClass(moduleElem)\<close>.\<close>

definition construct :: "module_class \<Rightarrow> element \<Rightarrow> live_instance option" where
  "construct ModuleClass moduleElem =
     (case ModuleClass moduleElem of
        None \<Rightarrow> None
      | Some (methods, failing, destroy) \<Rightarrow>
          Some \<lparr>inst_elem = moduleElem, inst_methods = methods, inst_failing = failing,
                inst_destroy = destroy\<rparr>)"

datatype error =
    TypeError string
  | ModuleError string
  | LoadError string

text \<open>
  How an async function ends: its promise fulfils, rejects, or never settles.
  \<open>Unmodelled\<close> marks a call that reaches a coercion this development does not cover
  (see \<open>toNumber\<close>); nothing is said about what the code does from there on.
\<close>

datatype completion = Fulfilled | Rejected error | NeverSettles | Unmodelled

text \<open>The effects that the properties below speak about, in the order in which the code performs them.\<close>

datatype event =
    Destroyed live_instance
  | DestroyError string string
  | Constructed live_instance
  | Invoked string live_instance option_bag
  | WarnMissingMethod string string
  | WarnInvalidRange string
  | WarnSwappedRange string
  | LogError string
  | MatrixUpdateStart string
  | MatrixUpdateEnd string
  | ImportAttempt string

text \<open>
  Kinds of events: a method called on an instance; an instance destroyed or constructed
  (the materialization of a placement); the start of a matrix update; a warning.
\<close>

fun isInvocation :: "event \<Rightarrow> bool" where
  "isInvocation (Invoked methodName inst options) = True"
| "isInvocation e = False"

fun isMaterialization :: "event \<Rightarrow> bool" where
  "isMaterialization (Destroyed inst) = True"
| "isMaterialization (Constructed inst) = True"
| "isMaterialization e = False"

fun isMatrixStart :: "event \<Rightarrow> bool" where
  "isMatrixStart (MatrixUpdateStart instanceId) = True"
| "isMatrixStart e = False"

fun isWarning :: "event \<Rightarrow> bool" where
  "isWarning (WarnMissingMethod methodName instanceId) = True"
| "isWarning (WarnInvalidRange name) = True"
| "isWarning (WarnSwappedRange name) = True"
| "isWarning e = False"

text \<open>The instances on which the events of a trace call a method.\<close>

fun invokedInstances :: "event list \<Rightarrow> live_instance list" where
  "invokedInstances [] = []"
| "invokedInstances (Invoked methodName inst options # evs) = inst # invokedInstances evs"
| "invokedInstances (e # evs) = invokedInstances evs"

section \<open>Option resolution\<close>

text \<open>
  The callback of \<open>map(methodOptions, ...)\<close> in \<open>Projector.executeMethods\<close>.  \<open>u\<close> is the
  value that \<open>Math.random()\<close> returns if it is called; the last component tells whether
  it was.
\<close>

definition resolveOption :: "real \<Rightarrow> method_option \<Rightarrow> (string \<times> js_value) \<times> event list \<times> bool" where
  "resolveOption u opt =
     (case opt_randomRange opt of
        JArr [JNum mn, JNum mx] \<Rightarrow>
          (let swap = (mn > mx);
               lo = (if swap then mx else mn);
               hi = (if swap then mn else mx);
               randomValue =
                 (if isInteger lo \<and> isInteger hi
                  then of_int \<lfloor>u * (hi - lo + 1)\<rfloor> + lo
                  else u * (hi - lo) + lo)
           in ((opt_name opt, JNum randomValue),
               (if swap then [WarnSwappedRange (opt_name opt)] else []), True))
      | JArr [a, b] \<Rightarrow>
          ((opt_name opt, opt_value opt), [WarnInvalidRange (opt_name opt)], False)
      | _ \<Rightarrow> ((opt_name opt, opt_value opt), [], False))"

text \<open>
  The whole \<open>fromPairs(map(methodOptions, ...))\<close>: the options are resolved left to right,
  each call of \<open>Math.random()\<close> taking the next draw of the source \<open>rnd\<close>.
\<close>

fun resolveAll :: "(nat \<Rightarrow> real) \<Rightarrow> nat \<Rightarrow> method_option list \<Rightarrow>
    (string \<times> js_value) list \<times> event list \<times> nat" where
  "resolveAll rnd i [] = ([], [], i)"
| "resolveAll rnd i (opt # opts) =
     (case resolveOption (rnd i) opt of
        (p, evs, used) \<Rightarrow>
          (case resolveAll rnd (if used then Suc i else i) opts of
             (ps, evs', j) \<Rightarrow> (p # ps, evs @ evs', j)))"

definition resolveOptions :: "(nat \<Rightarrow> real) \<Rightarrow> nat \<Rightarrow> method_option list \<Rightarrow>
    option_bag \<times> event list \<times> nat" where
  "resolveOptions rnd i opts =
     (case resolveAll rnd i opts of (ps, evs, j) \<Rightarrow> (fromPairs ps, evs, j))"

section \<open>buildMethodOptions\<close>

text \<open>
  The second argument of \<open>buildMethodOptions\<close>: whether each callback is a function, the
  no-repeat cache (a \<open>Map\<close>, \<open>None\<close> when none is passed) and the key prefix (\<open>None\<close> when
  it is not a string).
\<close>

record build_hooks =
  bh_onInvalidRandomRange :: bool
  bh_onSwapRandomRange :: bool
  bh_noRepeatCache :: "(string \<rightharpoonup> js_value) option"
  bh_noRepeatKeyPrefix :: "string option"

definition canNoRepeat :: "build_hooks \<Rightarrow> bool" where
  "canNoRepeat h =
     (bh_noRepeatCache h \<noteq> None \<and>
      (case bh_noRepeatKeyPrefix h of Some p \<Rightarrow> p \<noteq> [] | None \<Rightarrow> False))"

text \<open>
  What the loop of \<open>buildMethodOptions\<close> carries from entry to entry: the object \<open>out\<close>,
  the contents of the no-repeat cache, the index of the next draw of \<open>Math.random()\<close>, and
  the callbacks made so far.
\<close>

record build_state =
  bs_out :: option_bag
  bs_cache :: "string \<rightharpoonup> js_value"
  bs_next :: nat
  bs_calls :: "event list"

definition noRepeatKey :: "build_hooks \<Rightarrow> string \<Rightarrow> string \<Rightarrow> string option" where
  "noRepeatKey h name suffix =
     (if canNoRepeat h
      then Some ((case bh_noRepeatKeyPrefix h of Some p \<Rightarrow> p | None \<Rightarrow> []) @ '':'' @ name @ '':'' @ suffix)
      else None)"

text \<open>\<open>key ? noRepeatCache.get(key) : undefined\<close>.\<close>

definition lastPicked :: "build_state \<Rightarrow> string option \<Rightarrow> js_value" where
  "lastPicked st key =
     (case key of
        None \<Rightarrow> JUndefined
      | Some k \<Rightarrow> (case bs_cache st k of Some v \<Rightarrow> v | None \<Rightarrow> JUndefined))"

text \<open>\<open>out[name] = picked; if (key) noRepeatCache.set(key, picked)\<close>, after one draw.\<close>

definition storePicked :: "build_state \<Rightarrow> string \<Rightarrow> string option \<Rightarrow> js_value \<Rightarrow> build_state" where
  "storePicked st name key picked =
     st\<lparr>bs_out := obj_set name picked (bs_out st),
        bs_cache := (case key of Some k \<Rightarrow> (bs_cache st)(k \<mapsto> picked) | None \<Rightarrow> bs_cache st),
        bs_next := Suc (bs_next st)\<rparr>"

text \<open>
  The body of the loop over the entries of \<open>buildMethodOptions\<close>.  \<open>v !== last\<close> is
  taken as inequality of values.
\<close>

definition buildEntry :: "build_hooks \<Rightarrow> (nat \<Rightarrow> real) \<Rightarrow> build_state \<Rightarrow> method_option \<Rightarrow> build_state" where
  "buildEntry h rnd st entry =
     (let name = opt_name entry; u = rnd (bs_next st) in
      if name = [] then st
      else (case opt_randomValues entry of
              JArr (r # rs) \<Rightarrow>
                (let rv = r # rs;
                     key = noRepeatKey h name ''rv'';
                     last = lastPicked st key;
                     candidates = (if last \<noteq> JUndefined \<and> length rv > 1
                                   then filter (\<lambda>v. v \<noteq> last) rv else rv);
                     picked = js_index (JArr candidates)
                                (nat \<lfloor>u * real (max 1 (length candidates))\<rfloor>)
                 in storePicked st name key picked)
            | _ \<Rightarrow>
                (case opt_randomRange entry of
                   JArr [JNum mn, JNum mx] \<Rightarrow>
                     (let swap = (mn > mx);
                          st1 = (if swap \<and> bh_onSwapRandomRange h
                                 then st\<lparr>bs_calls := bs_calls st @ [WarnSwappedRange name]\<rparr> else st);
                          lo = (if swap then mx else mn);
                          hi = (if swap then mn else mx)
                      in if isInteger lo \<and> isInteger hi
                         then (let key = noRepeatKey h name ''rrInt'';
                                   last = lastPicked st1 key;
                                   range = hi - lo + 1;
                                   picked = of_int \<lfloor>u * range\<rfloor> + lo;
                                   picked' = (if key \<noteq> None \<and> range > 1 \<and> last = JNum picked
                                              then (if picked < hi then picked + 1 else lo)
                                              else picked)
                               in storePicked st1 name key (JNum picked'))
                         else st1\<lparr>bs_out := obj_set name (JNum (u * (hi - lo) + lo)) (bs_out st1),
                                  bs_next := Suc (bs_next st1)\<rparr>)
                 | JArr [a, b] \<Rightarrow>
                     (if bh_onInvalidRandomRange h
                      then st\<lparr>bs_calls := bs_calls st @ [WarnInvalidRange name]\<rparr> else st)
                       \<lparr>bs_out := obj_set name (opt_value entry) (bs_out st)\<rparr>
                 | _ \<Rightarrow> st\<lparr>bs_out := obj_set name (opt_value entry) (bs_out st)\<rparr>)))"

text \<open>
  \<open>buildMethodOptions\<close> on an array of entries: the object \<open>out\<close> it returns, with the
  cache, the draws used and the callbacks made.
\<close>

definition buildMethodOptions :: "build_hooks \<Rightarrow> (nat \<Rightarrow> real) \<Rightarrow> (string \<rightharpoonup> js_value) \<Rightarrow> nat \<Rightarrow> method_option list \<Rightarrow> build_state" where
  "buildMethodOptions h rnd cache i methodOptions =
     foldl (buildEntry h rnd) \<lparr>bs_out = [], bs_cache = cache, bs_next = i, bs_calls = []\<rparr> methodOptions"

section \<open>Tracks\<close>

text \<open>A Placement \<open>{ id, type }\<close> of \<open>track.modules\<close>.\<close>

record placement =
  pl_id :: string
  pl_type :: string

text \<open>
  \<open>track.modulesData[id]\<close>: the own \<open>constructor\<close> property, a batch (\<open>None\<close> when the
  object has no such own property) and the \<open>methods\<close> object, channel number to method list, as the list of its
  entries in the order \<open>Object.entries\<close> yields them (so its keys are distinct); a
  missing \<open>methods\<close> is \<open>None\<close>, a channel whose value is not an array holds \<open>None\<close>.
\<close>

record module_data =
  md_constructor :: "method_call list option"
  md_methods :: "(string \<times> method_call list option) list option"

text \<open>A track; \<open>tr_modules\<close> is \<open>None\<close> when \<open>track.modules\<close> is not an array.\<close>

record track =
  tr_name :: string
  tr_modules :: "placement list option"
  tr_modulesData :: "(string \<times> module_data) list"

text \<open>A target \<open>{ instanceId, moduleType }\<close> of the channel handler map.\<close>

record target =
  tg_instanceId :: string
  tg_moduleType :: string

section \<open>The orchestrator's state\<close>

text \<open>
  The fields of the \<open>Projector\<close> singleton that the orchestration reads and writes,
  \<open>ElementPool.pool\<close>, and what it touches of its surroundings: the children of the
  \<open>.modules\<close> container (\<open>None\<close> when \<open>document.querySelector\<close> finds none), what a
  dynamic \<open>import\<close> of a module file yields at present, the draws of \<open>Math.random()\<close>
  with the index of the next one, the batches handed to \<open>Promise.resolve().then\<close>, and
  the trace of effects performed so far.  A promise in \<open>moduleClassCache\<close> is held by
  its outcome.
\<close>

record projector =
  activeTrack :: "track option"
  activeModules :: "(string \<times> live_instance list) list"
  activeChannelHandlers :: "(string \<times> target list) list"
  moduleClassCache :: "string \<rightharpoonup> (error + module_class)"
  userData :: "track list"
  isDeactivating :: bool
  modulesContainer :: "element list option"
  pool :: "string \<Rightarrow> element list"
  moduleFiles :: "string \<Rightarrow> error + module_class"
  rnd :: "nat \<Rightarrow> real"
  rndNext :: nat
  scheduled :: "(method_call list \<times> string) list"
  trace :: "event list"

definition emit :: "event list \<Rightarrow> projector \<Rightarrow> projector" where
  "emit evs s = s\<lparr>trace := trace s @ evs\<rparr>"

section \<open>ElementPool\<close>

definition template :: element where
  "template = \<lparr>el_classes = [''module'', ''z-index-container''], el_instanceId = None,
                el_style = None, el_hidden = False\<rparr>"

text \<open>\<open>classList.add\<close>: a token already present is not added again.\<close>

definition classList_add :: "string \<Rightarrow> element \<Rightarrow> element" where
  "classList_add c e = (if c \<in> set (el_classes e) then e else e\<lparr>el_classes := el_classes e @ [c]\<rparr>)"

text \<open>\<open>ElementPool.getElement\<close>: the element and the pool after the call.\<close>

definition getElement :: "(string \<Rightarrow> element list) \<Rightarrow> string \<Rightarrow> element \<times> (string \<Rightarrow> element list)" where
  "getElement pl moduleName =
     (if pl moduleName = [] then (classList_add moduleName template, pl)
      else (last (pl moduleName), pl(moduleName := butlast (pl moduleName))))"

text \<open>\<open>ElementPool.releaseElement\<close>.\<close>

definition releaseElement :: "(string \<Rightarrow> element list) \<Rightarrow> element \<Rightarrow> (string \<Rightarrow> element list)" where
  "releaseElement pl elem =
     (case find (\<lambda>cls. cls \<noteq> ''module'' \<and> cls \<noteq> ''z-index-container'') (el_classes elem) of
        Some moduleName \<Rightarrow> pl(moduleName := pl moduleName @ [elem])
      | None \<Rightarrow> pl)"

section \<open>Module Registry\<close>

text \<open>
  \<open>Projector.loadModuleClass\<close> followed by the caller's \<open>await\<close>: every caller awaits the
  promise at once.  The result is \<open>Inr None\<close> for the \<open>null\<close> of a falsy module type.
  On a cache miss the loader promise is stored, and the \<open>catch\<close> handler of a rejected
  import deletes the entry again.
\<close>

definition loadModuleClass :: "projector \<Rightarrow> string \<Rightarrow> projector \<times> (error + module_class option)" where
  "loadModuleClass s moduleType =
     (if moduleType = [] then (s, Inr None)
      else (case moduleClassCache s moduleType of
              Some (Inl e) \<Rightarrow> (s, Inl e)
            | Some (Inr c) \<Rightarrow> (s, Inr (Some c))
            | None \<Rightarrow>
                (let s1 = emit [ImportAttempt moduleType] s;
                     loaderPromise = moduleFiles s1 moduleType;
                     s2 = s1\<lparr>moduleClassCache := (moduleClassCache s1)(moduleType \<mapsto> loaderPromise)\<rparr>
                 in (case loaderPromise of
                       Inl e \<Rightarrow> (s2\<lparr>moduleClassCache := (moduleClassCache s2)(moduleType := None)\<rparr>, Inl e)
                     | Inr c \<Rightarrow> (s2, Inr (Some c))))))"

section \<open>Track deactivation\<close>

text \<open>
  One \<open>destroy\<close> of the deactivation loop, inside its \<open>try\<close>: the events it leaves.
\<close>

definition destroyGuarded :: "string \<Rightarrow> live_instance \<Rightarrow> event list" where
  "destroyGuarded instanceId inst =
     (case inst_destroy inst of
        NoDestroy \<Rightarrow> []
      | DestroyReturns \<Rightarrow> [Destroyed inst]
      | DestroyThrows msg \<Rightarrow> [Destroyed inst, DestroyError instanceId msg])"

definition destroyAllGuarded :: "(string \<times> live_instance list) list \<Rightarrow> event list" where
  "destroyAllGuarded mods =
     concat (map (\<lambda>(instanceId, instances). concat (map (destroyGuarded instanceId) instances)) mods)"

text \<open>The children of the container that \<open>querySelectorAll(".module")\<close> selects.\<close>

definition isModuleElem :: "element \<Rightarrow> bool" where
  "isModuleElem e = (''module'' \<in> set (el_classes e))"

text \<open>
  \<open>Projector.deactivateActiveTrack\<close>.  Only the \<open>.module\<close> children are hidden, removed
  from the container and released to the pool; any other child stays where it is.
\<close>

definition deactivateActiveTrack :: "projector \<Rightarrow> projector" where
  "deactivateActiveTrack s =
     (if activeTrack s = None \<or> isDeactivating s then s
      else (case modulesContainer s of
              None \<Rightarrow> s
            | Some children \<Rightarrow>
                (let moduleElems = map (\<lambda>e. e\<lparr>el_hidden := True\<rparr>) (filter isModuleElem children);
                     s1 = emit (destroyAllGuarded (activeModules s)) s
                 in s1\<lparr>modulesContainer := Some (filter (\<lambda>e. \<not> isModuleElem e) children),
                       pool := foldl releaseElement (pool s1) moduleElems,
                       activeModules := [],
                       activeTrack := None,
                       activeChannelHandlers := [],
                       isDeactivating := False\<rparr>)))"

section \<open>Channel Router\<close>

text \<open>\<open>map[channelNumber].push(t)\<close>, creating the list first when the key is new.\<close>

definition pushTarget :: "string \<Rightarrow> target \<Rightarrow> (string \<times> target list) list \<Rightarrow> (string \<times> target list) list" where
  "pushTarget ch t m =
     (case map_of m ch of
        None \<Rightarrow> obj_set ch [t] m
      | Some ts \<Rightarrow> obj_set ch (ts @ [t]) m)"

text \<open>
  The callback of \<open>Object.entries(methodEntries).forEach\<close>: a channel with a non-empty
  method array gets the target of the placement.
\<close>

definition addEntry ::
  "target \<Rightarrow> (string \<times> target list) list \<Rightarrow> string \<times> method_call list option \<Rightarrow> (string \<times> target list) list" where
  "addEntry t m entry =
     (case entry of (channelNumber, methods) \<Rightarrow>
        (case methods of
           None \<Rightarrow> m
         | Some [] \<Rightarrow> m
         | Some (x # xs) \<Rightarrow> pushTarget channelNumber t m))"

text \<open>The body of \<open>track.modules.forEach\<close> in \<open>buildChannelHandlerMap\<close>.\<close>

definition addPlacement :: "track \<Rightarrow> (string \<times> target list) list \<Rightarrow> placement \<Rightarrow> (string \<times> target list) list" where
  "addPlacement tr m p =
     (case Option.bind (map_of (tr_modulesData tr) (pl_id p)) md_methods of
        None \<Rightarrow> m
      | Some methodEntries \<Rightarrow>
          foldl (addEntry \<lparr>tg_instanceId = pl_id p, tg_moduleType = pl_type p\<rparr>) m methodEntries)"

text \<open>\<open>Projector.buildChannelHandlerMap\<close>, on a track that is not \<open>null\<close>.\<close>

definition buildChannelHandlerMap :: "track \<Rightarrow> (string \<times> target list) list" where
  "buildChannelHandlerMap tr =
     (case tr_modules tr of
        None \<Rightarrow> []
      | Some ms \<Rightarrow> foldl (addPlacement tr) [] ms)"

text \<open>
  The placements a channel is to reach: the data of the placement holds a non-empty
  method list under the channel number.
\<close>

definition hasChannelMethods :: "track \<Rightarrow> placement \<Rightarrow> string \<Rightarrow> bool" where
  "hasChannelMethods tr p ch =
     (case Option.bind (map_of (tr_modulesData tr) (pl_id p)) md_methods of
        None \<Rightarrow> False
      | Some methodEntries \<Rightarrow>
          (case map_of methodEntries ch of
             Some (Some (x # xs)) \<Rightarrow> True
           | _ \<Rightarrow> False))"

text \<open>Every \<open>methods\<close> object of the track lists a channel number once, as an object does.\<close>

definition channelKeysDistinct :: "track \<Rightarrow> bool" where
  "channelKeysDistinct tr =
     list_all (\<lambda>(instanceId, d). case md_methods d of None \<Rightarrow> True | Some es \<Rightarrow> distinct (map fst es))
       (tr_modulesData tr)"

section \<open>Method Execution Pipeline\<close>

text \<open>
  The \<open>forEach\<close> that separates the "matrix" calls from the others: the three variables
  \<open>needsMatrixUpdate\<close>, \<open>matrixOptions\<close> (\<open>None\<close> for \<open>null\<close>) and \<open>otherMethods\<close>.
\<close>

definition separateStep ::
  "bool \<times> method_option list option \<times> method_call list \<Rightarrow> method_call \<Rightarrow>
   bool \<times> method_option list option \<times> method_call list" where
  "separateStep acc method =
     (case acc of (needsMatrixUpdate, matrixOptions, otherMethods) \<Rightarrow>
        if mc_name method = ''matrix'' then (True, Some (mc_options method), otherMethods)
        else (needsMatrixUpdate, matrixOptions, otherMethods @ [method]))"

definition separateMatrix ::
  "method_call list \<Rightarrow> bool \<times> method_option list option \<times> method_call list" where
  "separateMatrix methods = foldl separateStep (False, None, []) methods"

text \<open>
  The callback of \<open>moduleInstances.map\<close>: the method is called when the instance exposes a
  function under its name, and a warning is logged otherwise.  The second component is
  the rejection of this callback's promise, if any.
\<close>

definition invokeOn :: "string \<Rightarrow> option_bag \<Rightarrow> string \<Rightarrow> live_instance \<Rightarrow> event list \<times> error option" where
  "invokeOn methodName options instanceId inst =
     (if methodName \<in> set (inst_methods inst)
      then ([Invoked methodName inst options],
            if methodName \<in> set (inst_failing inst) then Some (ModuleError methodName) else None)
      else ([WarnMissingMethod methodName instanceId], None))"

text \<open>The first rejection among the promises given to \<open>Promise.all\<close>.\<close>

fun firstError :: "error option list \<Rightarrow> error option" where
  "firstError [] = None"
| "firstError (None # rs) = firstError rs"
| "firstError (Some e # rs) = Some e"

text \<open>
  The callback of \<open>otherMethods.map\<close>: the options are resolved, then the method goes to
  every instance of the list.  Every callback of the inner \<open>map\<close> runs up to its call of
  the method before any promise is awaited, so a failing call stops none of the others.
  \<open>None\<close> for the instance list is \<open>undefined\<close>, on which \<open>.map\<close> is a TypeError.
\<close>

definition runMethod :: "string \<Rightarrow> live_instance list option \<Rightarrow> projector \<Rightarrow> method_call \<Rightarrow> projector \<times> error option" where
  "runMethod instanceId moduleInstances s method =
     (case resolveOptions (rnd s) (rndNext s) (mc_options method) of
        (options, warnings, j) \<Rightarrow>
          (let s1 = (emit warnings s)\<lparr>rndNext := j\<rparr>
           in (case moduleInstances of
                 None \<Rightarrow> (s1, Some (TypeError ''moduleInstances.map''))
               | Some instances \<Rightarrow>
                   (let rs = map (invokeOn (mc_name method) options instanceId) instances
                    in (emit (concat (map fst rs)) s1, firstError (map snd rs))))))"

text \<open>\<open>await Promise.all(otherMethods.map(...))\<close>: every callback is started, in order.\<close>

fun runMethods :: "string \<Rightarrow> live_instance list option \<Rightarrow> projector \<Rightarrow> method_call list \<Rightarrow> projector \<times> error option list" where
  "runMethods instanceId moduleInstances s [] = (s, [])"
| "runMethods instanceId moduleInstances s (method # methods) =
     (case runMethod instanceId moduleInstances s method of
        (s1, r) \<Rightarrow>
          (case runMethods instanceId moduleInstances s1 methods of
             (s2, rs) \<Rightarrow> (s2, r # rs)))"

definition invokeMethods :: "projector \<Rightarrow> method_call list \<Rightarrow> string \<Rightarrow> live_instance list option \<Rightarrow> projector \<times> completion" where
  "invokeMethods s otherMethods instanceId moduleInstances =
     (case runMethods instanceId moduleInstances s otherMethods of
        (s1, rs) \<Rightarrow>
          (s1, case firstError rs of None \<Rightarrow> Fulfilled | Some e \<Rightarrow> Rejected e))"

text \<open>
  What a batch of calls leaves in the trace when every call, in the order of the batch,
  resolves its options and then goes to every instance of the list, in the order of the
  list: an invocation where the instance exposes the method, a warning where it does not.
\<close>

fun dispatchTrace :: "(nat \<Rightarrow> real) \<Rightarrow> nat \<Rightarrow> string \<Rightarrow> live_instance list \<Rightarrow> method_call list \<Rightarrow> event list" where
  "dispatchTrace draws i instanceId insts [] = []"
| "dispatchTrace draws i instanceId insts (method # methods) =
     (case resolveOptions draws i (mc_options method) of
        (opts, warnings, j) \<Rightarrow>
          warnings
          @ map (\<lambda>inst. if mc_name method \<in> set (inst_methods inst)
                         then Invoked (mc_name method) inst opts
                         else WarnMissingMethod (mc_name method) instanceId) insts
          @ dispatchTrace draws j instanceId insts methods)"

text \<open>\<open>this.activeModules[instanceId] || []\<close>.\<close>

definition instancesOf :: "projector \<Rightarrow> string \<Rightarrow> live_instance list" where
  "instancesOf s instanceId =
     (case map_of (activeModules s) instanceId of Some insts \<Rightarrow> insts | None \<Rightarrow> [])"

text \<open>A call named "matrix".\<close>

definition isMatrix :: "method_call \<Rightarrow> bool" where
  "isMatrix method = (mc_name method = ''matrix'')"

section \<open>Grid Layout and Instance Manager\<close>

text \<open>The decimal digits of a positive loop counter, as a template literal prints it.\<close>

definition digit :: "nat \<Rightarrow> char" where
  "digit d = ''0123456789'' ! d"

function decimal :: "nat \<Rightarrow> string" where
  "decimal n = (if n < 10 then [digit n] else decimal (n div 10) @ [digit (n mod 10)])"
  by pat_completeness auto
termination
  by (relation "measure id") auto

declare decimal.simps [simp del]

definition cellKey :: "nat \<Rightarrow> nat \<Rightarrow> string" where
  "cellKey row col = decimal row @ ''-'' @ decimal col"

text \<open>The matrix options that \<open>updateMatrix\<close> derives from the options of the call.\<close>

record matrix_options =
  mx_rows :: js_value
  mx_cols :: js_value
  mx_excludedCells :: js_value
  mx_border :: js_value

definition getProp :: "option_bag \<Rightarrow> string \<Rightarrow> js_value" where
  "getProp obj k = (case map_of obj k of Some v \<Rightarrow> v | None \<Rightarrow> JUndefined)"

definition matrixOptionsOf :: "method_option list \<Rightarrow> matrix_options" where
  "matrixOptionsOf methodOptions =
     (let options = fromPairs (map (\<lambda>opt. (opt_name opt, opt_value opt)) methodOptions);
          m = getProp options ''matrix''
      in (case m of
            JArr xs \<Rightarrow>
              \<lparr>mx_rows = js_or (js_index m 0) (JNum 1), mx_cols = js_or (js_index m 1) (JNum 1),
               mx_excludedCells = JArr [], mx_border = getProp options ''border''\<rparr>
          | JObj kvs \<Rightarrow>
              \<lparr>mx_rows = js_or (js_get m ''rows'') (JNum 1), mx_cols = js_or (js_get m ''cols'') (JNum 1),
               mx_excludedCells = js_or (js_get m ''excludedCells'') (JArr []),
               mx_border = getProp options ''border''\<rparr>
          | _ \<Rightarrow>
              \<lparr>mx_rows = JNum 1, mx_cols = JNum 1, mx_excludedCells = JArr [],
               mx_border = JBool False\<rparr>))"

text \<open>
  ToNumber on a matrix dimension, where the loop bound and the division coerce it.
  Strings, arrays and objects are converted through the numeric string grammar, which
  is not modelled: they are \<open>None\<close>, as is the NaN of \<open>undefined\<close>.
\<close>

fun toNumber :: "js_value \<Rightarrow> real option" where
  "toNumber (JNum x) = Some x"
| "toNumber (JBool b) = Some (if b then 1 else 0)"
| "toNumber JNull = Some 0"
| "toNumber v = None"

text \<open>\<open>s.includes(k)\<close> on a string: \<open>k\<close> occurs in \<open>s\<close>.\<close>

fun occursIn :: "string \<Rightarrow> string \<Rightarrow> bool" where
  "occursIn k [] = (k = [])"
| "occursIn k (c # cs) = (take (length k) (c # cs) = k \<or> occursIn k cs)"

text \<open>
  \<open>excludedCells.includes(cellKey)\<close>: membership in an array, occurrence in a string,
  and a TypeError (\<open>None\<close>) on a value that has no \<open>includes\<close>.
\<close>

fun js_includes :: "js_value \<Rightarrow> string \<Rightarrow> bool option" where
  "js_includes (JArr xs) k = Some (JStr k \<in> set xs)"
| "js_includes (JStr s) k = Some (occursIn k s)"
| "js_includes v k = None"

text \<open>
  The cells that the two nested loops visit, rows outer and columns inner: the counters
  start at 1 and run while they are at most the bound.
\<close>

definition gridCells :: "real \<Rightarrow> real \<Rightarrow> (nat \<times> nat) list" where
  "gridCells rows cols =
     concat (map (\<lambda>row. map (\<lambda>col. (row, col)) [1..<Suc (nat \<lfloor>cols\<rfloor>)])
                 [1..<Suc (nat \<lfloor>rows\<rfloor>)])"

text \<open>
  The \<open>continue\<close> of the loop body: a visited cell is kept unless its key is included in
  \<open>excludedCells\<close>; \<open>None\<close> when a call of \<open>includes\<close> throws.
\<close>

fun keepCells :: "js_value \<Rightarrow> (nat \<times> nat) list \<Rightarrow> (nat \<times> nat) list option" where
  "keepCells excludedCells [] = Some []"
| "keepCells excludedCells ((row, col) # cells) =
     (case js_includes excludedCells (cellKey row col) of
        None \<Rightarrow> None
      | Some skip \<Rightarrow>
          (case keepCells excludedCells cells of
             None \<Rightarrow> None
           | Some kept \<Rightarrow> Some (if skip then kept else (row, col) # kept)))"

definition retainedCells :: "real \<Rightarrow> real \<Rightarrow> js_value \<Rightarrow> (nat \<times> nat) list option" where
  "retainedCells rows cols excludedCells = keepCells excludedCells (gridCells rows cols)"

text \<open>The style written to the element of one cell.\<close>

definition cellStyle :: "real \<Rightarrow> real \<Rightarrow> int \<Rightarrow> js_value \<Rightarrow> nat \<times> nat \<Rightarrow> css" where
  "cellStyle rows cols zIndex border cell =
     (case cell of (row, col) \<Rightarrow>
        \<lparr>css_width = 100 / cols,
         css_height = 100 / rows,
         css_top = (100 / rows) * (real row - 1),
         css_left = (100 / cols) * (real col - 1),
         css_zIndex = zIndex,
         css_border = (if js_truthy border then ''1px solid white'' else ''none'')\<rparr>)"

text \<open>
  The body of the inner loop for a retained cell: an element is taken from the pool,
  tagged and styled (writing \<open>cssText\<close> replaces the whole inline style).
\<close>

definition placeCell ::
  "string \<Rightarrow> string \<Rightarrow> (nat \<times> nat \<Rightarrow> css) \<Rightarrow> element list \<times> (string \<Rightarrow> element list) \<Rightarrow> nat \<times> nat \<Rightarrow>
   element list \<times> (string \<Rightarrow> element list)" where
  "placeCell moduleType instanceId style acc cell =
     (case acc of (elems, pl) \<Rightarrow>
        (case getElement pl moduleType of
           (e, pl') \<Rightarrow>
             (elems @ [e\<lparr>el_instanceId := Some instanceId, el_style := Some (style cell),
                         el_hidden := False\<rparr>], pl')))"

text \<open>
  The teardown at the start of \<open>updateMatrix\<close>: \<open>destroy\<close> is called on the instances one
  after the other, outside any \<open>try\<close>, so the first throw ends the loop.
\<close>

fun destroyEach :: "live_instance list \<Rightarrow> event list \<times> error option" where
  "destroyEach [] = ([], None)"
| "destroyEach (inst # insts) =
     (case inst_destroy inst of
        NoDestroy \<Rightarrow> destroyEach insts
      | DestroyReturns \<Rightarrow> (case destroyEach insts of (evs, r) \<Rightarrow> (Destroyed inst # evs, r))
      | DestroyThrows msg \<Rightarrow> ([Destroyed inst], Some (ModuleError msg)))"

text \<open>
  The callback of \<open>requestAnimationFrame\<close>: one instance per element.  A constructor that
  throws ends the callback before \<open>resolve()\<close>; the flag is then \<open>False\<close>.
\<close>

fun instantiate :: "module_class \<Rightarrow> element list \<Rightarrow> live_instance list \<times> bool" where
  "instantiate ModuleClass [] = ([], True)"
| "instantiate ModuleClass (e # es) =
     (case construct ModuleClass e of
        None \<Rightarrow> ([], False)
      | Some inst \<Rightarrow> (case instantiate ModuleClass es of (insts, ok) \<Rightarrow> (inst # insts, ok)))"

text \<open>The elements matched by \<open>.module.<type>[data-instance-id="<id>"]\<close>.\<close>

definition ownedBy :: "string \<Rightarrow> string \<Rightarrow> element \<Rightarrow> bool" where
  "ownedBy moduleType instanceId e =
     (''module'' \<in> set (el_classes e) \<and> moduleType \<in> set (el_classes e) \<and>
      el_instanceId e = Some instanceId)"

text \<open>\<open>instanceId.replace(/^preview_/, "")\<close>.\<close>

definition stripPreview :: "string \<Rightarrow> string" where
  "stripPreview instanceId =
     (if take 8 instanceId = ''preview_'' then drop 8 instanceId else instanceId)"

text \<open>\<open>findIndex\<close>: the position of the first match, or -1.\<close>

fun findIndex :: "('a \<Rightarrow> bool) \<Rightarrow> 'a list \<Rightarrow> int" where
  "findIndex P [] = -1"
| "findIndex P (x # xs) = (if P x then 0 else (let i = findIndex P xs in if i < 0 then -1 else i + 1))"

text \<open>
  The module type and the z-index that \<open>updateMatrix\<close> takes for a placement: those of
  its entry in the active track, or the instance id without its \<open>preview_\<close> prefix and
  1 when no track is active.  \<open>.find\<close> on a \<open>modules\<close> that is not an array is a TypeError.
\<close>

definition moduleTypeOf :: "projector \<Rightarrow> string \<Rightarrow> error + (string \<times> int)" where
  "moduleTypeOf s instanceId =
     (case activeTrack s of
        None \<Rightarrow> Inr (stripPreview instanceId, 1)
      | Some tr \<Rightarrow>
          (case tr_modules tr of
             None \<Rightarrow> Inl (TypeError ''modules.find'')
           | Some ms \<Rightarrow>
               Inr ((case find (\<lambda>m. pl_id m = instanceId) ms of
                       Some moduleInstance \<Rightarrow> pl_type moduleInstance
                     | None \<Rightarrow> stripPreview instanceId),
                    findIndex (\<lambda>m. pl_id m = instanceId) ms + 1)))"

text \<open>
  "Remove existing module instances and release elements to the pool": the instances of
  the placement are destroyed, its elements leave the container for the pool, and its
  instance list is emptied.  A throwing \<open>destroy\<close> ends the function there.
\<close>

definition removeExisting :: "projector \<Rightarrow> string \<Rightarrow> string \<Rightarrow> element list \<Rightarrow> projector \<times> error option" where
  "removeExisting s instanceId moduleType children =
     (case destroyEach (instancesOf s instanceId) of
        (destroyed, Some e) \<Rightarrow> (emit destroyed s, Some e)
      | (destroyed, None) \<Rightarrow>
          ((emit destroyed s)
             \<lparr>modulesContainer := Some (filter (\<lambda>e. \<not> ownedBy moduleType instanceId e) children),
              pool := foldl releaseElement (pool s) (filter (ownedBy moduleType instanceId) children),
              activeModules := obj_set instanceId [] (activeModules s)\<rparr>,
           None))"

text \<open>
  "Create new module elements and instances", once the class is loaded: the elements of
  the retained cells are styled and appended to the container, the instances are
  constructed in one animation frame and stored.
\<close>

definition createInstances ::
  "projector \<Rightarrow> string \<Rightarrow> string \<Rightarrow> int \<Rightarrow> matrix_options \<Rightarrow> module_class \<Rightarrow>
   projector \<times> (completion + live_instance list)" where
  "createInstances s instanceId moduleType zIndex matrixOptions ModuleClass =
     (case (toNumber (mx_rows matrixOptions), toNumber (mx_cols matrixOptions)) of
        (Some rows, Some cols) \<Rightarrow>
          (case retainedCells rows cols (mx_excludedCells matrixOptions) of
             None \<Rightarrow> (s, Inl (Rejected (TypeError ''excludedCells.includes'')))
           | Some cells \<Rightarrow>
               (case foldl (placeCell moduleType instanceId
                              (cellStyle rows cols zIndex (mx_border matrixOptions)))
                       ([], pool s) cells of
                  (moduleElemsToInstantiate, pl) \<Rightarrow>
                    (let s1 = s\<lparr>pool := pl,
                                modulesContainer :=
                                  Some ((case modulesContainer s of Some c \<Rightarrow> c | None \<Rightarrow> [])
                                        @ moduleElemsToInstantiate)\<rparr>
                     in case instantiate ModuleClass moduleElemsToInstantiate of
                          (insts, False) \<Rightarrow> (emit (map Constructed insts) s1, Inl NeverSettles)
                        | (newModuleInstances, True) \<Rightarrow>
                            ((emit (map Constructed newModuleInstances) s1)
                               \<lparr>activeModules := obj_set instanceId newModuleInstances (activeModules s1)\<rparr>,
                             Inr newModuleInstances))))
      | _ \<Rightarrow> (s, Inl Unmodelled))"

text \<open>
  \<open>updateMatrix\<close> from its start to "Store the new instances".  The result is \<open>Inl\<close> with
  the way the call ends when it ends there (an early \<open>return\<close>, a throw, the promise of
  the animation frame never resolving) and \<open>Inr\<close> with the new instances otherwise.
\<close>

definition rebuildInstances :: "projector \<Rightarrow> string \<Rightarrow> method_option list \<Rightarrow> projector \<times> (completion + live_instance list)" where
  "rebuildInstances s instanceId methodOptions =
     (let matrixOptions = matrixOptionsOf methodOptions in
      case modulesContainer s of
        None \<Rightarrow> (s, Inl Fulfilled)
      | Some children \<Rightarrow>
          (case moduleTypeOf s instanceId of
             Inl e \<Rightarrow> (s, Inl (Rejected e))
           | Inr (moduleType, zIndex) \<Rightarrow>
               if moduleType = [] then (emit [LogError ''Could not find module type''] s, Inl Fulfilled)
               else (case removeExisting s instanceId moduleType children of
                       (s1, Some e) \<Rightarrow> (s1, Inl (Rejected e))
                     | (s1, None) \<Rightarrow>
                         (case loadModuleClass s1 moduleType of
                            (s2, Inl e) \<Rightarrow> (emit [LogError ''Error loading module''] s2, Inl Fulfilled)
                          | (s2, Inr None) \<Rightarrow>
                              (s2, Inl (Rejected (TypeError ''ModuleClass is not a constructor'')))
                          | (s2, Inr (Some ModuleClass)) \<Rightarrow>
                              createInstances s2 instanceId moduleType zIndex matrixOptions ModuleClass))))"

text \<open>
  \<open>get(track, ["modulesData", instanceId, "constructor"], [])\<close> followed by \<open>.filter\<close>.
  lodash \<open>get\<close> reads inherited properties too: for a placement without data it yields the
  default \<open>[]\<close>, but for a data object without an own \<open>constructor\<close> it yields the
  inherited \<open>Object.prototype.constructor\<close>, a function, on which \<open>.filter\<close> is a
  TypeError.
\<close>

definition constructorMethods :: "track \<Rightarrow> string \<Rightarrow> error + method_call list" where
  "constructorMethods tr instanceId =
     (case map_of (tr_modulesData tr) instanceId of
        None \<Rightarrow> Inr []
      | Some d \<Rightarrow>
          (case md_constructor d of
             None \<Rightarrow> Inl (TypeError ''constructorMethods.filter'')
           | Some ms \<Rightarrow> Inr ms))"

text \<open>
  \<open>Projector.executeMethods\<close> and \<open>Projector.updateMatrix\<close>.  Each \<open>await\<close> is a
  sequencing point: the awaited call has ended before the caller goes on, and a call that
  rejects or never settles ends the caller in the same way.  \<open>isConstructor\<close> selects the
  wording of a log line only.  The debug log of the overlay is left out.
\<close>

function executeMethods ::
    "projector \<Rightarrow> method_call list \<Rightarrow> string \<Rightarrow> live_instance list option \<Rightarrow> bool \<Rightarrow> projector \<times> completion"
  and updateMatrix ::
    "projector \<Rightarrow> string \<Rightarrow> method_option list \<Rightarrow> projector \<times> completion"
where
  "executeMethods s methods instanceId moduleInstances isConstructor =
     (case separateMatrix methods of
        (needsMatrixUpdate, matrixOptions, otherMethods) \<Rightarrow>
          if needsMatrixUpdate
          then (case updateMatrix (emit [MatrixUpdateStart instanceId] s) instanceId
                       (case matrixOptions of Some opts \<Rightarrow> opts | None \<Rightarrow> []) of
                  (s1, Fulfilled) \<Rightarrow>
                    invokeMethods (emit [MatrixUpdateEnd instanceId] s1) otherMethods instanceId
                      (map_of (activeModules s1) instanceId)
                | (s1, r) \<Rightarrow> (s1, r))
          else invokeMethods s otherMethods instanceId moduleInstances)"
| "updateMatrix s instanceId methodOptions =
     (case rebuildInstances s instanceId methodOptions of
        (s1, Inl c) \<Rightarrow> (s1, c)
      | (s1, Inr newModuleInstances) \<Rightarrow>
          (case activeTrack s1 of
             None \<Rightarrow> (s1, Fulfilled)
           | Some tr \<Rightarrow>
               (case constructorMethods tr instanceId of
                  Inl e \<Rightarrow> (s1, Rejected e)
                | Inr ms \<Rightarrow>
                    (let filteredConstructorMethods =
                           filter (\<lambda>method. mc_name method \<noteq> ''matrix'') ms
                     in if filteredConstructorMethods \<noteq> []
                        then executeMethods s1 filteredConstructorMethods instanceId
                               (Some newModuleInstances) True
                        else (s1, Fulfilled)))))"
  by pat_completeness auto
termination
proof -
  have keep: "fst (foldl separateStep (b, mo, acc) ms) = b"
    if "\<forall>m\<in>set ms. mc_name m \<noteq> ''matrix''" for b mo acc and ms :: "method_call list"
    using that by (induction ms arbitrary: acc) (auto simp: separateStep_def)
  have needs: "fst (separateMatrix ms)" if "(True, y) = separateMatrix ms" for y ms
    using that by (metis fst_conv)
  have nomatrix: "\<not> fst (separateMatrix (filter (\<lambda>m. mc_name m \<noteq> ''matrix'') ms))" for ms
    by (simp add: separateMatrix_def keep)
  show ?thesis
    by (relation "measure (\<lambda>x. case x of
          Inl (s, methods, instanceId, moduleInstances, isConstructor) \<Rightarrow>
            (if fst (separateMatrix methods) then 2 else 0)
        | Inr (s, instanceId, methodOptions) \<Rightarrow> 1)")
       (auto simp: needs nomatrix)
qed

declare executeMethods.simps [simp del] updateMatrix.simps [simp del]

section \<open>Track activation\<close>

text \<open>
  The batch that \<open>handleTrackSelection\<close> schedules for a placement, if any:
  \<open>get(track.modulesData, [instanceId, "constructor"])\<close> under the test
  \<open>constructorMethods && constructorMethods.length > 0\<close>.  For a data object without an
  own \<open>constructor\<close> the value is the inherited constructor function, whose \<open>length\<close> is
  1 and over which \<open>forEach\<close> visits nothing: a batch without calls is scheduled.
\<close>

definition scheduledBatch :: "track \<Rightarrow> string \<Rightarrow> method_call list option" where
  "scheduledBatch tr instanceId =
     (case map_of (tr_modulesData tr) instanceId of
        None \<Rightarrow> None
      | Some d \<Rightarrow>
          (case md_constructor d of
             None \<Rightarrow> Some []
           | Some [] \<Rightarrow> None
           | Some (m # ms) \<Rightarrow> Some (m # ms)))"

text \<open>
  The callback of \<open>track.modules.map\<close> in \<open>handleTrackSelection\<close>: the class of the
  placement is loaded, its instance list is initialised, and its constructor batch is
  handed to \<open>Promise.resolve().then\<close>.  The callbacks are taken one after the other, each
  load awaited at once.
\<close>

definition initPlacement :: "track \<Rightarrow> projector \<Rightarrow> placement \<Rightarrow> projector" where
  "initPlacement tr s p =
     (case loadModuleClass s (pl_type p) of
        (s1, Inl e) \<Rightarrow> emit [LogError ''Error loading module''] s1
      | (s1, Inr ModuleClass) \<Rightarrow>
          (let s2 = s1\<lparr>activeModules := obj_set (pl_id p) [] (activeModules s1)\<rparr>
           in (case scheduledBatch tr (pl_id p) of
                 Some methods \<Rightarrow> s2\<lparr>scheduled := scheduled s2 @ [(methods, pl_id p)]\<rparr>
               | None \<Rightarrow> s2)))"

text \<open>\<open>Projector.handleTrackSelection\<close>.\<close>

definition handleTrackSelection :: "projector \<Rightarrow> string \<Rightarrow> projector \<times> completion" where
  "handleTrackSelection s trackName =
     (case find (\<lambda>t. tr_name t = trackName) (userData s) of
        None \<Rightarrow> (deactivateActiveTrack (emit [LogError ''Track not found in userData''] s), Fulfilled)
      | Some tr \<Rightarrow>
          (let s1 = (case activeTrack s of
                       Some a \<Rightarrow> if tr_name a \<noteq> trackName then deactivateActiveTrack s else s
                     | None \<Rightarrow> s)
           in if map_option tr_name (activeTrack s1) = Some trackName then (s1, Fulfilled)
              else (case modulesContainer s1 of
                      None \<Rightarrow> (emit [LogError ''No .modules container found in DOM''] s1, Fulfilled)
                    | Some children \<Rightarrow>
                        (case tr_modules tr of
                           None \<Rightarrow> (emit [LogError ''Track has invalid modules array''] s1, Fulfilled)
                         | Some ms \<Rightarrow>
                             (let s2 = s1\<lparr>activeTrack := Some tr,
                                          activeChannelHandlers := buildChannelHandlerMap tr\<rparr>
                              in (foldl (initPlacement tr) s2 ms, Fulfilled))))))"

section \<open>Initial state\<close>

text \<open>
  The \<open>Projector\<close> object as the module declares it, after \<open>init\<close> has read the tracks
  of the active set: no active track, no instances, empty caches and pool, an empty
  \<open>.modules\<close> container.  The surroundings here let every \<open>import\<close> fail and every draw of
  \<open>Math.random()\<close> be 0.
\<close>

definition initialProjector :: "track list \<Rightarrow> projector" where
  "initialProjector tracks =
     \<lparr>activeTrack = None, activeModules = [], activeChannelHandlers = [],
      moduleClassCache = Map.empty, userData = tracks, isDeactivating = False,
      modulesContainer = Some [], pool = (\<lambda>moduleName. []),
      moduleFiles = (\<lambda>moduleType. Inl (LoadError moduleType)),
      rnd = (\<lambda>n. 0), rndNext = 0, scheduled = [], trace = []\<rparr>"

section \<open>A sample configuration\<close>

text \<open>
  The track of the scenarios: placement \<open>P1\<close> of type GridDots with a 2 x 2 matrix that
  excludes cell 1-1, a constructor call \<open>setColor\<close> and \<open>methodA\<close> on channel 3, and
  placement \<open>P2\<close> of type Frame without any data.
\<close>

definition plainOption :: "string \<Rightarrow> js_value \<Rightarrow> method_option" where
  "plainOption name v =
     \<lparr>opt_name = name, opt_value = v, opt_randomRange = JUndefined, opt_randomValues = JUndefined\<rparr>"

definition matrixCall :: method_call where
  "matrixCall =
     \<lparr>mc_name = ''matrix'',
      mc_options =
        [plainOption ''matrix''
           (JObj [(''rows'', JNum 2), (''cols'', JNum 2), (''excludedCells'', JArr [JStr ''1-1''])]),
         plainOption ''border'' (JBool False)]\<rparr>"

definition setColor :: method_call where
  "setColor = \<lparr>mc_name = ''setColor'', mc_options = [plainOption ''color'' (JStr ''#ff0000'')]\<rparr>"

definition methodA :: method_call where
  "methodA = \<lparr>mc_name = ''methodA'', mc_options = []\<rparr>"

definition introTrack :: track where
  "introTrack =
     \<lparr>tr_name = ''Intro'',
      tr_modules = Some [\<lparr>pl_id = ''P1'', pl_type = ''GridDots''\<rparr>,
                         \<lparr>pl_id = ''P2'', pl_type = ''Frame''\<rparr>],
      tr_modulesData =
        [(''P1'', \<lparr>md_constructor = Some [matrixCall, setColor],
                   md_methods = Some [(''3'', Some [methodA])]\<rparr>),
         (''P2'', \<lparr>md_constructor = None, md_methods = None\<rparr>)]\<rparr>"

text \<open>A module class whose instances expose \<open>setColor\<close> and \<open>methodA\<close> and a \<open>destroy\<close> that returns.\<close>

definition sampleClass :: module_class where
  "sampleClass = (\<lambda>moduleElem. Some ([''setColor'', ''methodA''], [], DestroyReturns))"

text \<open>An instance on the element that the pool hands out first for a module type.\<close>

definition sampleInstance :: "string \<Rightarrow> destroy_kind \<Rightarrow> live_instance" where
  "sampleInstance moduleType d =
     \<lparr>inst_elem = classList_add moduleType template, inst_methods = [''setColor'', ''methodA''],
      inst_failing = [], inst_destroy = d\<rparr>"

text \<open>
  The sample track active, before any of its placements is materialized, with every
  module file resolving to the sample class.
\<close>

definition introActive :: projector where
  "introActive =
     (initialProjector [introTrack])
       \<lparr>activeTrack := Some introTrack,
        activeChannelHandlers := buildChannelHandlerMap introTrack,
        moduleFiles := (\<lambda>moduleType. Inr sampleClass)\<rparr>"

text \<open>The instance of the sample class on the element of cell \<open>(row, col)\<close> of \<open>P1\<close>.\<close>

definition sampleCell :: "nat \<Rightarrow> nat \<Rightarrow> live_instance" where
  "sampleCell row col =
     \<lparr>inst_elem =
        \<lparr>el_classes = [''module'', ''z-index-container'', ''GridDots''],
         el_instanceId = Some ''P1'',
         el_style = Some \<lparr>css_width = 50, css_height = 50,
                           css_top = 50 * (real row - 1), css_left = 50 * (real col - 1),
                           css_zIndex = 1, css_border = ''none''\<rparr>,
         el_hidden = False\<rparr>,
      inst_methods = [''setColor'', ''methodA''], inst_failing = [], inst_destroy = DestroyReturns\<rparr>"

text \<open>
  The track active with two live instances of \<open>P1\<close> left by an earlier activation, the
  first of which throws from \<open>destroy\<close>.
\<close>

definition staleActive :: projector where
  "staleActive =
     (initialProjector [introTrack])
       \<lparr>activeTrack := Some introTrack,
        activeModules := [(''P1'', [sampleInstance ''GridDots'' (DestroyThrows ''boom''),
                                     sampleInstance ''GridDots'' DestroyReturns])]\<rparr>"

section \<open>Option resolution: ranges\<close>






lemma map_of_obj_set: "map_of (obj_set k v m) k' = (if k' = k then Some v else map_of m k')"
  by (induction m) auto










section \<open>Module registry, track selection and teardown\<close>

text \<open>
  C8.  A load that fails leaves no entry in the module class cache, so the next load of
  the same type imports again and yields what the import yields then; a load that
  succeeds leaves the class in the cache, and the next load returns it without importing.
\<close>

theorem C8_failed_load_not_cached:
  "moduleType \<noteq> [] \<and> moduleClassCache s moduleType = None \<longrightarrow>
     (moduleFiles s moduleType = Inl e \<longrightarrow>
        snd (loadModuleClass s moduleType) = Inl e
        \<and> moduleClassCache (fst (loadModuleClass s moduleType)) moduleType = None
        \<and> trace (fst (loadModuleClass s moduleType)) = trace s @ [ImportAttempt moduleType]
        \<and> snd (loadModuleClass ((fst (loadModuleClass s moduleType))\<lparr>moduleFiles := f\<rparr>) moduleType)
            = (case f moduleType of Inl e' \<Rightarrow> Inl e' | Inr c' \<Rightarrow> Inr (Some c'))
        \<and> trace (fst (loadModuleClass ((fst (loadModuleClass s moduleType))\<lparr>moduleFiles := f\<rparr>) moduleType))
            = trace s @ [ImportAttempt moduleType, ImportAttempt moduleType])
     \<and> (moduleFiles s moduleType = Inr c \<longrightarrow>
        snd (loadModuleClass s moduleType) = Inr (Some c)
        \<and> moduleClassCache (fst (loadModuleClass s moduleType)) moduleType = Some (Inr c)
        \<and> trace (fst (loadModuleClass s moduleType)) = trace s @ [ImportAttempt moduleType]
        \<and> loadModuleClass ((fst (loadModuleClass s moduleType))\<lparr>moduleFiles := f\<rparr>) moduleType
            = ((fst (loadModuleClass s moduleType))\<lparr>moduleFiles := f\<rparr>, Inr (Some c)))"
  by (auto simp: loadModuleClass_def emit_def Let_def split: sum.splits)

theorem C8_failed_load_not_cached_witness:
  "snd (loadModuleClass (initialProjector []) ''GridDots'') = Inl (LoadError ''GridDots'')
   \<and> moduleClassCache (fst (loadModuleClass (initialProjector []) ''GridDots'')) ''GridDots'' = None
   \<and> snd (loadModuleClass ((fst (loadModuleClass (initialProjector []) ''GridDots''))
             \<lparr>moduleFiles := (\<lambda>t. Inr (\<lambda>e. Some ([''show''], [], DestroyReturns)))\<rparr>) ''GridDots'')
       = Inr (Some (\<lambda>e. Some ([''show''], [], DestroyReturns)))
   \<and> trace (fst (loadModuleClass ((fst (loadModuleClass (initialProjector []) ''GridDots''))
             \<lparr>moduleFiles := (\<lambda>t. Inr (\<lambda>e. Some ([''show''], [], DestroyReturns)))\<rparr>) ''GridDots''))
       = [ImportAttempt ''GridDots'', ImportAttempt ''GridDots'']
   \<and> snd (loadModuleClass ((initialProjector [])
             \<lparr>moduleFiles := (\<lambda>t. Inr (\<lambda>e. Some ([''show''], [], DestroyReturns)))\<rparr>) ''GridDots'')
       = Inr (Some (\<lambda>e. Some ([''show''], [], DestroyReturns)))
   \<and> snd (loadModuleClass ((fst (loadModuleClass ((initialProjector [])
             \<lparr>moduleFiles := (\<lambda>t. Inr (\<lambda>e. Some ([''show''], [], DestroyReturns)))\<rparr>) ''GridDots''))
             \<lparr>moduleFiles := (\<lambda>t. Inl (LoadError t))\<rparr>) ''GridDots'')
       = Inr (Some (\<lambda>e. Some ([''show''], [], DestroyReturns)))"
  using C8_failed_load_not_cached [of "''GridDots''" "initialProjector []" "LoadError ''GridDots''"
      "\<lambda>t. Inr (\<lambda>e. Some ([''show''], [], DestroyReturns))" "\<lambda>e. Some ([''show''], [], DestroyReturns)"]
    C8_failed_load_not_cached [of "''GridDots''"
      "(initialProjector [])\<lparr>moduleFiles := (\<lambda>t. Inr (\<lambda>e. Some ([''show''], [], DestroyReturns)))\<rparr>"
      "LoadError ''GridDots''" "\<lambda>t. Inl (LoadError t)" "\<lambda>e. Some ([''show''], [], DestroyReturns)"]
  by (simp add: initialProjector_def)

text \<open>
  C2, as the code has it.  Selecting a track name that the configuration does not hold
  logs the miss, never throws, and runs the deactivation of the active track: when no
  track is active (or a deactivation is under way, or the container is missing) the
  active track, the registered instances and the channel handler map stay as they are;
  otherwise every registered instance is destroyed and all three are cleared.
\<close>

theorem C2_unknown_track_deactivates:
  "find (\<lambda>t. tr_name t = trackName) (userData s) = None \<longrightarrow>
     snd (handleTrackSelection s trackName) = Fulfilled
     \<and> (activeTrack s = None \<or> isDeactivating s \<or> modulesContainer s = None \<longrightarrow>
          activeTrack (fst (handleTrackSelection s trackName)) = activeTrack s
          \<and> activeModules (fst (handleTrackSelection s trackName)) = activeModules s
          \<and> activeChannelHandlers (fst (handleTrackSelection s trackName)) = activeChannelHandlers s
          \<and> trace (fst (handleTrackSelection s trackName))
              = trace s @ [LogError ''Track not found in userData''])
     \<and> (activeTrack s \<noteq> None \<and> \<not> isDeactivating s \<and> modulesContainer s \<noteq> None \<longrightarrow>
          activeTrack (fst (handleTrackSelection s trackName)) = None
          \<and> activeModules (fst (handleTrackSelection s trackName)) = []
          \<and> activeChannelHandlers (fst (handleTrackSelection s trackName)) = []
          \<and> trace (fst (handleTrackSelection s trackName))
              = trace s @ [LogError ''Track not found in userData''] @ destroyAllGuarded (activeModules s))"
  by (auto simp: handleTrackSelection_def deactivateActiveTrack_def emit_def Let_def
           split: option.splits)


theorem C2_unknown_track_deactivates_witness:
  "snd (handleTrackSelection (initialProjector [introTrack]) ''Outro'') = Fulfilled
   \<and> activeTrack (fst (handleTrackSelection (initialProjector [introTrack]) ''Outro'')) = None
   \<and> trace (fst (handleTrackSelection (initialProjector [introTrack]) ''Outro''))
       = [LogError ''Track not found in userData'']
   \<and> activeModules (fst (handleTrackSelection
        ((initialProjector [introTrack])
           \<lparr>activeTrack := Some introTrack,
            activeModules := [(''P1'', [sampleInstance ''GridDots'' (DestroyThrows ''boom'')])]\<rparr>)
        ''Outro'')) = []
   \<and> trace (fst (handleTrackSelection
        ((initialProjector [introTrack])
           \<lparr>activeTrack := Some introTrack,
            activeModules := [(''P1'', [sampleInstance ''GridDots'' (DestroyThrows ''boom'')])]\<rparr>)
        ''Outro''))
       = [LogError ''Track not found in userData'',
          Destroyed (sampleInstance ''GridDots'' (DestroyThrows ''boom'')),
          DestroyError ''P1'' ''boom'']"
proof -
  let ?idle = "initialProjector [introTrack]"
  let ?active = "(initialProjector [introTrack])
           \<lparr>activeTrack := Some introTrack,
            activeModules := [(''P1'', [sampleInstance ''GridDots'' (DestroyThrows ''boom'')])]\<rparr>"
  have idle: "find (\<lambda>t. tr_name t = ''Outro'') (userData ?idle) = None" "activeTrack ?idle = None"
    "trace ?idle = []"
    by (simp_all add: initialProjector_def introTrack_def)
  have active: "find (\<lambda>t. tr_name t = ''Outro'') (userData ?active) = None"
    "activeTrack ?active \<noteq> None" "\<not> isDeactivating ?active" "modulesContainer ?active \<noteq> None"
    "trace ?active = []"
    "destroyAllGuarded (activeModules ?active)
       = [Destroyed (sampleInstance ''GridDots'' (DestroyThrows ''boom'')), DestroyError ''P1'' ''boom'']"
    by (simp_all add: initialProjector_def introTrack_def destroyAllGuarded_def destroyGuarded_def
          sampleInstance_def)
  show ?thesis
    using C2_unknown_track_deactivates [of "''Outro''" ?idle]
      C2_unknown_track_deactivates [of "''Outro''" ?active] idle active
    by simp
qed

theorem C2_unknown_track_counterexample:
  "map tr_name (userData ((initialProjector [introTrack])
           \<lparr>activeTrack := Some introTrack,
            activeModules := [(''P1'', [sampleInstance ''GridDots'' DestroyReturns])],
            activeChannelHandlers := buildChannelHandlerMap introTrack\<rparr>)) = [''Intro'']
   \<and> activeTrack (fst (handleTrackSelection
        ((initialProjector [introTrack])
           \<lparr>activeTrack := Some introTrack,
            activeModules := [(''P1'', [sampleInstance ''GridDots'' DestroyReturns])],
            activeChannelHandlers := buildChannelHandlerMap introTrack\<rparr>)
        ''Outro'')) \<noteq> Some introTrack
   \<and> activeModules (fst (handleTrackSelection
        ((initialProjector [introTrack])
           \<lparr>activeTrack := Some introTrack,
            activeModules := [(''P1'', [sampleInstance ''GridDots'' DestroyReturns])],
            activeChannelHandlers := buildChannelHandlerMap introTrack\<rparr>)
        ''Outro'')) \<noteq> [(''P1'', [sampleInstance ''GridDots'' DestroyReturns])]
   \<and> buildChannelHandlerMap introTrack = [(''3'', [\<lparr>tg_instanceId = ''P1'', tg_moduleType = ''GridDots''\<rparr>])]
   \<and> activeChannelHandlers (fst (handleTrackSelection
        ((initialProjector [introTrack])
           \<lparr>activeTrack := Some introTrack,
            activeModules := [(''P1'', [sampleInstance ''GridDots'' DestroyReturns])],
            activeChannelHandlers := buildChannelHandlerMap introTrack\<rparr>)
        ''Outro'')) = []"
  by (simp add: handleTrackSelection_def deactivateActiveTrack_def emit_def Let_def
        initialProjector_def introTrack_def buildChannelHandlerMap_def addPlacement_def
        addEntry_def pushTarget_def methodA_def)


text \<open>
  C4.  The teardown at the start of \<open>updateMatrix\<close> is not isolated.  With two instances
  registered for \<open>P1\<close>, the first of which has a \<open>destroy\<close> that throws, \<open>updateMatrix\<close>
  rejects after that one call: the second instance is never destroyed and the placement
  is not rebuilt.  The deactivation of the same state destroys both and logs the failure.
\<close>

theorem C4_updateMatrix_teardown_aborts:
  "updateMatrix
     ((initialProjector [introTrack])
        \<lparr>activeTrack := Some introTrack,
         activeModules := [(''P1'', [sampleInstance ''GridDots'' (DestroyThrows ''boom''),
                                      sampleInstance ''GridDots'' DestroyReturns])]\<rparr>)
     ''P1'' (mc_options matrixCall)
   = ((initialProjector [introTrack])
        \<lparr>activeTrack := Some introTrack,
         activeModules := [(''P1'', [sampleInstance ''GridDots'' (DestroyThrows ''boom''),
                                      sampleInstance ''GridDots'' DestroyReturns])],
         trace := [Destroyed (sampleInstance ''GridDots'' (DestroyThrows ''boom''))]\<rparr>,
      Rejected (ModuleError ''boom''))
   \<and> trace (deactivateActiveTrack
       ((initialProjector [introTrack])
          \<lparr>activeTrack := Some introTrack,
           activeModules := [(''P1'', [sampleInstance ''GridDots'' (DestroyThrows ''boom''),
                                        sampleInstance ''GridDots'' DestroyReturns])]\<rparr>))
     = [Destroyed (sampleInstance ''GridDots'' (DestroyThrows ''boom'')),
        DestroyError ''P1'' ''boom'',
        Destroyed (sampleInstance ''GridDots'' DestroyReturns)]"
  by (simp add: updateMatrix.simps rebuildInstances_def moduleTypeOf_def removeExisting_def
        instancesOf_def initialProjector_def introTrack_def
        sampleInstance_def emit_def deactivateActiveTrack_def destroyAllGuarded_def
        destroyGuarded_def Let_def)

section \<open>Channel handler map\<close>

lemma keys_obj_set: "fst ` set (obj_set k v m) = insert k (fst ` set m)"
proof (induction m)
  case Nil
  then show ?case by simp
next
  case (Cons a m)
  obtain k' v' where a: "a = (k', v')" by (cases a)
  show ?case
  proof (cases "k = k'")
    case True
    then show ?thesis by (simp add: a)
  next
    case False
    then show ?thesis by (simp add: a Cons.IH insert_commute)
  qed
qed

lemma distinct_obj_set: "distinct (map fst m) \<Longrightarrow> distinct (map fst (obj_set k v m))"
proof (induction m)
  case Nil
  then show ?case by simp
next
  case (Cons a m)
  obtain k' v' where a: "a = (k', v')" by (cases a)
  show ?case
  proof (cases "k = k'")
    case True
    then show ?thesis using Cons.prems a by simp
  next
    case False
    have "k' \<notin> fst ` set (obj_set k v m)"
      using Cons.prems False a by (simp add: keys_obj_set)
    then show ?thesis using Cons a False by simp
  qed
qed

lemma map_of_pushTarget:
  "map_of (pushTarget c t m) ch =
     (if ch = c then Some ((case map_of m c of None \<Rightarrow> [] | Some ts \<Rightarrow> ts) @ [t]) else map_of m ch)"
  by (simp add: pushTarget_def map_of_obj_set split: option.splits)

lemma distinct_pushTarget: "distinct (map fst m) \<Longrightarrow> distinct (map fst (pushTarget c t m))"
  by (simp add: pushTarget_def distinct_obj_set split: option.splits)

lemma entries_fold:
  "distinct (map fst es) \<Longrightarrow>
   map_of (foldl (addEntry t) m es) ch =
     (if (\<exists>x xs. map_of es ch = Some (Some (x # xs)))
      then Some ((case map_of m ch of None \<Rightarrow> [] | Some ts \<Rightarrow> ts) @ [t])
      else map_of m ch)"
proof (induction es arbitrary: m)
  case Nil
  then show ?case by simp
next
  case (Cons e es)
  obtain c ms where e: "e = (c, ms)" by (cases e)
  have d: "distinct (map fst es)" and notin: "c \<notin> fst ` set es"
    using Cons.prems e by auto
  have none: "map_of es c = None"
    using notin by (simp add: map_of_eq_None_iff)
  show ?case
  proof (cases "ch = c")
    case True
    then show ?thesis
      using Cons.IH [OF d] none e
      by (cases ms; cases "the ms") (auto simp: addEntry_def map_of_pushTarget)
  next
    case False
    then show ?thesis
      using Cons.IH [OF d] e
      by (cases ms; cases "the ms") (auto simp: addEntry_def map_of_pushTarget)
  qed
qed

lemma entries_fold_distinct:
  "distinct (map fst m) \<Longrightarrow> distinct (map fst (foldl (addEntry t) m es))"
proof (induction es arbitrary: m)
  case Nil
  then show ?case by simp
next
  case (Cons e es)
  obtain c ms where e: "e = (c, ms)" by (cases e)
  have "distinct (map fst (addEntry t m e))"
    using Cons.prems e by (cases ms; cases "the ms") (auto simp: addEntry_def distinct_pushTarget)
  then show ?case using Cons.IH by simp
qed

lemma placement_entries_distinct:
  assumes "channelKeysDistinct tr" "Option.bind (map_of (tr_modulesData tr) i) md_methods = Some es"
  shows "distinct (map fst es)"
proof -
  obtain d where d: "map_of (tr_modulesData tr) i = Some d" "md_methods d = Some es"
    using assms(2) by (cases "map_of (tr_modulesData tr) i") auto
  then have "(i, d) \<in> set (tr_modulesData tr)"
    by (simp add: map_of_SomeD)
  then show ?thesis
    using assms(1) d(2) by (auto simp: channelKeysDistinct_def list_all_iff)
qed

lemma map_of_addPlacement:
  assumes "channelKeysDistinct tr"
  shows "map_of (addPlacement tr m p) ch =
     (if hasChannelMethods tr p ch
      then Some ((case map_of m ch of None \<Rightarrow> [] | Some ts \<Rightarrow> ts)
                 @ [\<lparr>tg_instanceId = pl_id p, tg_moduleType = pl_type p\<rparr>])
      else map_of m ch)"
proof (cases "Option.bind (map_of (tr_modulesData tr) (pl_id p)) md_methods")
  case None
  then show ?thesis by (simp add: addPlacement_def hasChannelMethods_def)
next
  case (Some es)
  have d: "distinct (map fst es)"
    using placement_entries_distinct [OF assms Some] .
  have h: "hasChannelMethods tr p ch = (\<exists>x xs. map_of es ch = Some (Some (x # xs)))"
    by (auto simp: hasChannelMethods_def Some split: option.splits list.splits)
  show ?thesis
    by (simp add: addPlacement_def Some entries_fold [OF d] h)
qed

lemma distinct_addPlacement:
  "distinct (map fst m) \<Longrightarrow> distinct (map fst (addPlacement tr m p))"
  by (simp add: addPlacement_def entries_fold_distinct split: option.splits)

lemma map_of_placements:
  assumes "channelKeysDistinct tr"
  shows "map_of (foldl (addPlacement tr) m ps) ch =
     (if filter (\<lambda>p. hasChannelMethods tr p ch) ps = [] then map_of m ch
      else Some ((case map_of m ch of None \<Rightarrow> [] | Some ts \<Rightarrow> ts)
                 @ map (\<lambda>p. \<lparr>tg_instanceId = pl_id p, tg_moduleType = pl_type p\<rparr>)
                     (filter (\<lambda>p. hasChannelMethods tr p ch) ps)))"
proof (induction ps arbitrary: m)
  case Nil
  then show ?case by simp
next
  case (Cons p ps)
  show ?case
    by (simp add: Cons.IH map_of_addPlacement [OF assms])
qed

lemma distinct_placements:
  "distinct (map fst m) \<Longrightarrow> distinct (map fst (foldl (addPlacement tr) m ps))"
  by (induction ps arbitrary: m) (simp_all add: distinct_addPlacement)


text \<open>
  C7.  For a track whose \<open>methods\<close> objects list every channel once, the channel handler
  map holds, under each channel number, the target of every placement that has a
  non-empty method list for that channel, in the order of the placements, and holds no
  entry for a channel that no placement listens to; each channel occurs once in the map.
\<close>

theorem C7_channel_handler_map:
  "tr_modules tr = Some ms \<and> channelKeysDistinct tr \<longrightarrow>
     map_of (buildChannelHandlerMap tr) ch =
       (if filter (\<lambda>p. hasChannelMethods tr p ch) ms = [] then None
        else Some (map (\<lambda>p. \<lparr>tg_instanceId = pl_id p, tg_moduleType = pl_type p\<rparr>)
                     (filter (\<lambda>p. hasChannelMethods tr p ch) ms)))
     \<and> distinct (map fst (buildChannelHandlerMap tr))"
proof (intro impI conjI)
  assume h: "tr_modules tr = Some ms \<and> channelKeysDistinct tr"
  then have b: "buildChannelHandlerMap tr = foldl (addPlacement tr) [] ms"
    by (simp add: buildChannelHandlerMap_def)
  show "map_of (buildChannelHandlerMap tr) ch =
       (if filter (\<lambda>p. hasChannelMethods tr p ch) ms = [] then None
        else Some (map (\<lambda>p. \<lparr>tg_instanceId = pl_id p, tg_moduleType = pl_type p\<rparr>)
                     (filter (\<lambda>p. hasChannelMethods tr p ch) ms)))"
    using h by (simp add: b map_of_placements)
  show "distinct (map fst (buildChannelHandlerMap tr))"
    by (simp add: b distinct_placements)
qed

theorem C7_channel_handler_map_witness:
  "buildChannelHandlerMap introTrack
     = [(''3'', [\<lparr>tg_instanceId = ''P1'', tg_moduleType = ''GridDots''\<rparr>])]
   \<and> map_of (buildChannelHandlerMap introTrack) ''3''
     = Some [\<lparr>tg_instanceId = ''P1'', tg_moduleType = ''GridDots''\<rparr>]
   \<and> map_of (buildChannelHandlerMap introTrack) ''4'' = None"
proof -
  have pre: "tr_modules introTrack = Some [\<lparr>pl_id = ''P1'', pl_type = ''GridDots''\<rparr>,
                         \<lparr>pl_id = ''P2'', pl_type = ''Frame''\<rparr>]" "channelKeysDistinct introTrack"
    by (simp_all add: introTrack_def channelKeysDistinct_def)
  have has: "hasChannelMethods introTrack \<lparr>pl_id = ''P1'', pl_type = ''GridDots''\<rparr> ''3''"
    "\<not> hasChannelMethods introTrack \<lparr>pl_id = ''P2'', pl_type = ''Frame''\<rparr> ''3''"
    "\<not> hasChannelMethods introTrack \<lparr>pl_id = ''P1'', pl_type = ''GridDots''\<rparr> ''4''"
    "\<not> hasChannelMethods introTrack \<lparr>pl_id = ''P2'', pl_type = ''Frame''\<rparr> ''4''"
    by (simp_all add: hasChannelMethods_def introTrack_def)
  have whole: "buildChannelHandlerMap introTrack
     = [(''3'', [\<lparr>tg_instanceId = ''P1'', tg_moduleType = ''GridDots''\<rparr>])]"
    by (simp add: buildChannelHandlerMap_def addPlacement_def addEntry_def pushTarget_def
          introTrack_def methodA_def)
  show ?thesis
    using C7_channel_handler_map [of introTrack "[\<lparr>pl_id = ''P1'', pl_type = ''GridDots''\<rparr>,
                         \<lparr>pl_id = ''P2'', pl_type = ''Frame''\<rparr>]" "''3''"]
      C7_channel_handler_map [of introTrack "[\<lparr>pl_id = ''P1'', pl_type = ''GridDots''\<rparr>,
                         \<lparr>pl_id = ''P2'', pl_type = ''Frame''\<rparr>]" "''4''"]
      pre has whole
    by simp
qed

section \<open>Method dispatch\<close>

lemma separate_fold:
  "foldl separateStep (b, mo, acc) ms =
     (b \<or> (\<exists>m\<in>set ms. isMatrix m),
      (if filter isMatrix ms = [] then mo else Some (mc_options (last (filter isMatrix ms)))),
      acc @ filter (\<lambda>m. \<not> isMatrix m) ms)"
proof (induction ms arbitrary: b mo acc)
  case Nil
  then show ?case by simp
next
  case (Cons m ms)
  have step: "separateStep (b, mo, acc) m =
      (if isMatrix m then (True, Some (mc_options m), acc) else (b, mo, acc @ [m]))"
    by (simp add: separateStep_def isMatrix_def)
  show ?case
    by (cases "isMatrix m") (auto simp: Cons.IH step)
qed

lemma separateMatrix_eq:
  "separateMatrix ms =
     ((\<exists>m\<in>set ms. isMatrix m),
      (if filter isMatrix ms = [] then None else Some (mc_options (last (filter isMatrix ms)))),
      filter (\<lambda>m. \<not> isMatrix m) ms)"
  by (simp add: separateMatrix_def separate_fold)

lemma executeMethods_plain:
  "\<forall>m\<in>set ms. \<not> isMatrix m \<Longrightarrow>
   executeMethods s ms instanceId moduleInstances isConstructor = invokeMethods s ms instanceId moduleInstances"
proof -
  assume a: "\<forall>m\<in>set ms. \<not> isMatrix m"
  then have "filter (\<lambda>m. \<not> isMatrix m) ms = ms" "filter isMatrix ms = []"
    by (simp_all add: filter_empty_conv)
  then show ?thesis
    using a by (simp add: executeMethods.simps separateMatrix_eq)
qed

lemma executeMethods_matrix:
  assumes "\<exists>m\<in>set ms. isMatrix m"
  shows "executeMethods s ms instanceId moduleInstances isConstructor =
     (case updateMatrix (emit [MatrixUpdateStart instanceId] s) instanceId
             (mc_options (last (filter isMatrix ms))) of
        (s1, Fulfilled) \<Rightarrow>
          invokeMethods (emit [MatrixUpdateEnd instanceId] s1) (filter (\<lambda>m. \<not> isMatrix m) ms) instanceId
            (map_of (activeModules s1) instanceId)
      | (s1, r) \<Rightarrow> (s1, r))"
proof -
  have "filter isMatrix ms \<noteq> []"
    using assms by (simp add: filter_empty_conv)
  then show ?thesis
    using assms by (simp add: executeMethods.simps separateMatrix_eq)
qed

lemma resolveAll_warnings:
  "resolveAll draws i opts = (ps, evs, j) \<Longrightarrow> \<forall>e\<in>set evs. isWarning e"
proof (induction opts arbitrary: i ps evs j)
  case Nil
  then show ?case by simp
next
  case (Cons opt opts)
  obtain p w used where r: "resolveOption (draws i) opt = (p, w, used)"
    by (cases "resolveOption (draws i) opt") auto
  obtain ps' evs' j' where rest: "resolveAll draws (if used then Suc i else i) opts = (ps', evs', j')"
    by (cases "resolveAll draws (if used then Suc i else i) opts") auto
  have w: "\<forall>e\<in>set w. isWarning e"
    using r by (auto simp: resolveOption_def Let_def split: js_value.splits list.splits if_splits)
  have "evs = w @ evs'"
    using Cons.prems r rest by simp
  then show ?case
    using w Cons.IH [OF rest] by auto
qed

lemma warning_kinds:
  "isWarning e \<Longrightarrow> \<not> isInvocation e \<and> \<not> isMaterialization e \<and> \<not> isMatrixStart e"
  by (cases e) simp_all

lemma invokedInstances_append:
  "invokedInstances (xs @ ys) = invokedInstances xs @ invokedInstances ys"
  by (induction xs rule: invokedInstances.induct) simp_all

lemma invokedInstances_none:
  "\<forall>e\<in>set evs. \<not> isInvocation e \<Longrightarrow> invokedInstances evs = []"
  by (induction evs rule: invokedInstances.induct) simp_all


lemma invokeOn_events:
  "concat (map (fst \<circ> invokeOn n opts instanceId) insts) =
     map (\<lambda>inst. if n \<in> set (inst_methods inst) then Invoked n inst opts
                   else WarnMissingMethod n instanceId) insts"
  by (induction insts) (simp_all add: invokeOn_def)

lemma invokeOn_errors:
  "(firstError (map (snd \<circ> invokeOn n opts instanceId) insts) = None) =
     (\<forall>inst\<in>set insts. n \<in> set (inst_methods inst) \<longrightarrow> n \<notin> set (inst_failing inst))"
  by (induction insts) (auto simp: invokeOn_def)

lemma dispatch_kinds:
  "\<forall>e\<in>set (map (\<lambda>inst. if n \<in> set (inst_methods inst) then Invoked n inst opts
                          else WarnMissingMethod n instanceId) insts).
     \<not> isMaterialization e \<and> \<not> isMatrixStart e"
  by (induction insts) simp_all

lemma dispatch_instances:
  "set (invokedInstances (map (\<lambda>inst. if n \<in> set (inst_methods inst) then Invoked n inst opts
                          else WarnMissingMethod n instanceId) insts)) \<subseteq> set insts"
  by (induction insts) auto

lemma runMethod_some:
  assumes "resolveOptions (rnd s) (rndNext s) (mc_options method) = (opts, warnings, j)"
  shows "runMethod instanceId (Some insts) s method =
     ((emit (warnings @ map (\<lambda>inst. if mc_name method \<in> set (inst_methods inst)
                                      then Invoked (mc_name method) inst opts
                                      else WarnMissingMethod (mc_name method) instanceId) insts) s)
        \<lparr>rndNext := j\<rparr>,
      firstError (map (snd \<circ> invokeOn (mc_name method) opts instanceId) insts))"
  by (simp add: runMethod_def assms Let_def invokeOn_events emit_def)

lemma runMethod_none:
  assumes "resolveOptions (rnd s) (rndNext s) (mc_options method) = (opts, warnings, j)"
  shows "runMethod instanceId None s method =
     ((emit warnings s)\<lparr>rndNext := j\<rparr>, Some (TypeError ''moduleInstances.map''))"
  by (simp add: runMethod_def assms Let_def)

lemma resolveOptions_warnings:
  "resolveOptions draws i opts = (bag, evs, j) \<Longrightarrow> \<forall>e\<in>set evs. isWarning e"
  using resolveAll_warnings [of draws i opts]
  by (cases "resolveAll draws i opts") (auto simp: resolveOptions_def)

lemma runMethod_frame:
  assumes "runMethod instanceId mi s method = (s', r)"
  shows "\<exists>evs. trace s' = trace s @ evs \<and> activeModules s' = activeModules s
           \<and> activeTrack s' = activeTrack s
           \<and> (\<forall>e\<in>set evs. \<not> isMaterialization e \<and> \<not> isMatrixStart e)
           \<and> set (invokedInstances evs) \<subseteq> set (case mi of Some l \<Rightarrow> l | None \<Rightarrow> [])"
proof -
  obtain opts warnings j where ro: "resolveOptions (rnd s) (rndNext s) (mc_options method) = (opts, warnings, j)"
    by (cases "resolveOptions (rnd s) (rndNext s) (mc_options method)") auto
  have w: "\<forall>e\<in>set warnings. isWarning e"
    using resolveOptions_warnings [OF ro] .
  then have wk: "\<forall>e\<in>set warnings. \<not> isInvocation e \<and> \<not> isMaterialization e \<and> \<not> isMatrixStart e"
    using warning_kinds by blast
  then have wi: "invokedInstances warnings = []"
    by (simp add: invokedInstances_none)
  show ?thesis
  proof (cases mi)
    case None
    then have "s' = (emit warnings s)\<lparr>rndNext := j\<rparr>"
      using assms runMethod_none [OF ro] by simp
    then show ?thesis
      using wk wi None by (simp add: emit_def)
  next
    case (Some insts)
    let ?d = "map (\<lambda>inst. if mc_name method \<in> set (inst_methods inst)
                          then Invoked (mc_name method) inst opts
                          else WarnMissingMethod (mc_name method) instanceId) insts"
    have s': "s' = (emit (warnings @ ?d) s)\<lparr>rndNext := j\<rparr>"
      using assms runMethod_some [OF ro] Some by simp
    have k: "\<forall>e\<in>set (warnings @ ?d). \<not> isMaterialization e \<and> \<not> isMatrixStart e"
      using wk dispatch_kinds [of "mc_name method" opts instanceId insts] by auto
    have i: "set (invokedInstances (warnings @ ?d)) \<subseteq> set insts"
      using wi dispatch_instances [of "mc_name method" opts instanceId insts]
      by (simp add: invokedInstances_append)
    have "trace s' = trace s @ (warnings @ ?d)" "activeModules s' = activeModules s"
      "activeTrack s' = activeTrack s"
      by (simp_all add: s' emit_def)
    then show ?thesis
      using k i Some by (intro exI [of _ "warnings @ ?d"]) simp
  qed
qed

lemma runMethods_frame:
  "runMethods instanceId mi s ms = (s', rs) \<Longrightarrow>
   \<exists>evs. trace s' = trace s @ evs \<and> activeModules s' = activeModules s
         \<and> activeTrack s' = activeTrack s
         \<and> (\<forall>e\<in>set evs. \<not> isMaterialization e \<and> \<not> isMatrixStart e)
         \<and> set (invokedInstances evs) \<subseteq> set (case mi of Some l \<Rightarrow> l | None \<Rightarrow> [])"
proof (induction ms arbitrary: s s' rs)
  case Nil
  then show ?case by simp
next
  case (Cons m ms)
  obtain s1 r where one: "runMethod instanceId mi s m = (s1, r)"
    by (cases "runMethod instanceId mi s m") auto
  obtain s2 rs' where rest: "runMethods instanceId mi s1 ms = (s2, rs')"
    by (cases "runMethods instanceId mi s1 ms") auto
  have s': "s' = s2" using Cons.prems one rest by simp
  obtain e1 where e1: "trace s1 = trace s @ e1" "activeModules s1 = activeModules s"
      "activeTrack s1 = activeTrack s"
      "\<forall>e\<in>set e1. \<not> isMaterialization e \<and> \<not> isMatrixStart e"
      "set (invokedInstances e1) \<subseteq> set (case mi of Some l \<Rightarrow> l | None \<Rightarrow> [])"
    using runMethod_frame [OF one] by blast
  obtain e2 where e2: "trace s2 = trace s1 @ e2" "activeModules s2 = activeModules s1"
      "activeTrack s2 = activeTrack s1"
      "\<forall>e\<in>set e2. \<not> isMaterialization e \<and> \<not> isMatrixStart e"
      "set (invokedInstances e2) \<subseteq> set (case mi of Some l \<Rightarrow> l | None \<Rightarrow> [])"
    using Cons.IH [OF rest] by blast
  show ?case
    using e1 e2 unfolding s'
    by (intro exI [of _ "e1 @ e2"]) (auto simp: invokedInstances_append)
qed

lemma invokeMethods_frame:
  assumes "invokeMethods s ms instanceId mi = (s', c)"
  shows "\<exists>evs. trace s' = trace s @ evs \<and> activeModules s' = activeModules s
         \<and> activeTrack s' = activeTrack s
         \<and> (\<forall>e\<in>set evs. \<not> isMaterialization e \<and> \<not> isMatrixStart e)
         \<and> set (invokedInstances evs) \<subseteq> set (case mi of Some l \<Rightarrow> l | None \<Rightarrow> [])"
proof -
  obtain s1 rs where r: "runMethods instanceId mi s ms = (s1, rs)"
    by (cases "runMethods instanceId mi s ms") auto
  then have "s' = s1" using assms by (simp add: invokeMethods_def)
  then show ?thesis using runMethods_frame [OF r] by simp
qed





section \<open>Matrix step and method batches\<close>

lemma loadModuleClass_trace:
  "trace (fst (loadModuleClass s t)) =
     trace s @ (if t \<noteq> [] \<and> moduleClassCache s t = None then [ImportAttempt t] else [])"
  by (auto simp: loadModuleClass_def emit_def Let_def split: option.splits sum.splits)

lemma loadModuleClass_fields:
  "activeTrack (fst (loadModuleClass s t)) = activeTrack s"
  "activeModules (fst (loadModuleClass s t)) = activeModules s"
  "pool (fst (loadModuleClass s t)) = pool s"
  "modulesContainer (fst (loadModuleClass s t)) = modulesContainer s"
  by (auto simp: loadModuleClass_def emit_def Let_def split: option.splits sum.splits)

lemma destroyEach_kinds:
  "\<forall>e\<in>set (fst (destroyEach insts)). \<not> isInvocation e \<and> \<not> isMatrixStart e"
  by (induction insts) (auto split: destroy_kind.splits prod.splits)

text \<open>A step that leaves the active track alone and adds no invocation and no matrix start.\<close>

lemma removeExisting_frame:
  assumes "removeExisting s instanceId moduleType children = (s', r)"
  shows "activeTrack s' = activeTrack s \<and>
     (\<exists>evs. trace s' = trace s @ evs \<and> (\<forall>e\<in>set evs. \<not> isInvocation e \<and> \<not> isMatrixStart e))"
proof -
  obtain destroyed d where d: "destroyEach (instancesOf s instanceId) = (destroyed, d)"
    by (cases "destroyEach (instancesOf s instanceId)") auto
  have k: "\<forall>e\<in>set destroyed. \<not> isInvocation e \<and> \<not> isMatrixStart e"
    using destroyEach_kinds [of "instancesOf s instanceId"] d by simp
  have "activeTrack s' = activeTrack s \<and> trace s' = trace s @ destroyed"
    using assms d by (cases d) (auto simp: removeExisting_def emit_def)
  then show ?thesis using k by blast
qed

lemma createInstances_frame:
  assumes "createInstances s instanceId moduleType zIndex mo cls = (s', res)"
  shows "activeTrack s' = activeTrack s \<and>
     (\<exists>evs. trace s' = trace s @ evs \<and> (\<forall>e\<in>set evs. \<not> isInvocation e \<and> \<not> isMatrixStart e)) \<and>
     (\<forall>new. res = Inr new \<longrightarrow> map_of (activeModules s') instanceId = Some new)"
proof (cases "toNumber (mx_rows mo)")
  case None
  then show ?thesis using assms by (auto simp: createInstances_def)
next
  case r: (Some rows)
  show ?thesis
  proof (cases "toNumber (mx_cols mo)")
    case None
    then show ?thesis using assms r by (auto simp: createInstances_def)
  next
    case c: (Some cols)
    show ?thesis
    proof (cases "retainedCells rows cols (mx_excludedCells mo)")
      case None
      then show ?thesis using assms r c by (auto simp: createInstances_def)
    next
      case (Some cells)
      obtain elems pl where f: "foldl (placeCell moduleType instanceId
              (cellStyle rows cols zIndex (mx_border mo))) ([], pool s) cells = (elems, pl)"
        by (meson surj_pair)
      obtain insts ok where i: "instantiate cls elems = (insts, ok)"
        by (meson surj_pair)
      have k: "\<forall>e\<in>set (map Constructed insts). \<not> isInvocation e \<and> \<not> isMatrixStart e"
        by simp
      have "activeTrack s' = activeTrack s \<and> trace s' = trace s @ map Constructed insts \<and>
          (\<forall>new. res = Inr new \<longrightarrow> map_of (activeModules s') instanceId = Some new)"
        using assms r c Some f i
        by (cases ok) (auto simp: createInstances_def Let_def emit_def map_of_obj_set)
      then show ?thesis using k by blast
    qed
  qed
qed

lemma rebuild_frame:
  assumes "rebuildInstances s instanceId opts = (s', res)"
  shows "activeTrack s' = activeTrack s \<and>
     (\<exists>evs. trace s' = trace s @ evs \<and> (\<forall>e\<in>set evs. \<not> isInvocation e \<and> \<not> isMatrixStart e)) \<and>
     (\<forall>new. res = Inr new \<longrightarrow> map_of (activeModules s') instanceId = Some new)"
proof (cases "modulesContainer s")
  case None
  then show ?thesis using assms by (auto simp: rebuildInstances_def)
next
  case (Some children)
  show ?thesis
  proof (cases "moduleTypeOf s instanceId")
    case (Inl e)
    then show ?thesis using assms Some by (auto simp: rebuildInstances_def)
  next
    case (Inr tz)
    obtain moduleType zIndex where tz: "tz = (moduleType, zIndex)" by (cases tz)
    show ?thesis
    proof (cases "moduleType = []")
      case True
      then have "s' = emit [LogError ''Could not find module type''] s" "res = Inl Fulfilled"
        using assms Some Inr tz by (simp_all add: rebuildInstances_def)
      then show ?thesis by (simp add: emit_def)
    next
      case False
      obtain s1 r1 where re: "removeExisting s instanceId moduleType children = (s1, r1)"
        by (meson surj_pair)
      obtain e1 where e1: "activeTrack s1 = activeTrack s" "trace s1 = trace s @ e1"
          "\<forall>e\<in>set e1. \<not> isInvocation e \<and> \<not> isMatrixStart e"
        using removeExisting_frame [OF re] by blast
      show ?thesis
      proof (cases r1)
        case (Some e)
        then have "s' = s1" "res = Inl (Rejected e)"
          using assms \<open>modulesContainer s = Some children\<close> Inr tz False re
          by (simp_all add: rebuildInstances_def)
        then show ?thesis using e1 by auto
      next
        case None
        obtain s2 r2 where ld: "loadModuleClass s1 moduleType = (s2, r2)"
          by (meson surj_pair)
        have l: "activeTrack s2 = activeTrack s"
          "trace s2 = trace s @ e1 @
             (if moduleType \<noteq> [] \<and> moduleClassCache s1 moduleType = None
              then [ImportAttempt moduleType] else [])"
          using loadModuleClass_fields(1) [of s1 moduleType] loadModuleClass_trace [of s1 moduleType]
          by (simp_all add: ld e1)
        define e2 where "e2 = e1 @
             (if moduleType \<noteq> [] \<and> moduleClassCache s1 moduleType = None
              then [ImportAttempt moduleType] else [])"
        have e2: "trace s2 = trace s @ e2" "\<forall>e\<in>set e2. \<not> isInvocation e \<and> \<not> isMatrixStart e"
          using l e1 by (auto simp: e2_def)
        note ctx = assms \<open>modulesContainer s = Some children\<close> Inr tz False re None ld
        show ?thesis
        proof (cases r2)
          case (Inl e)
          then have "s' = emit [LogError ''Error loading module''] s2" "res = Inl Fulfilled"
            using ctx by (auto simp: rebuildInstances_def)
          then have "activeTrack s' = activeTrack s" "trace s' = trace s @ (e2 @ [LogError ''Error loading module''])"
            "\<forall>new. res = Inr new \<longrightarrow> map_of (activeModules s') instanceId = Some new"
            using l e2 by (simp_all add: emit_def)
          moreover have "\<forall>e\<in>set (e2 @ [LogError ''Error loading module'']). \<not> isInvocation e \<and> \<not> isMatrixStart e"
            using e2 by simp
          ultimately show ?thesis by blast
        next
          case r: (Inr oc)
          show ?thesis
          proof (cases oc)
            case None
            then have "s' = s2" "res = Inl (Rejected (TypeError ''ModuleClass is not a constructor''))"
              using ctx r by (auto simp: rebuildInstances_def)
            then show ?thesis using l e2 by auto
          next
            case (Some cls)
            then have c: "createInstances s2 instanceId moduleType zIndex (matrixOptionsOf opts) cls = (s', res)"
              using ctx r by (auto simp: rebuildInstances_def)
            obtain e3 where e3: "activeTrack s' = activeTrack s2" "trace s' = trace s2 @ e3"
              "\<forall>e\<in>set e3. \<not> isInvocation e \<and> \<not> isMatrixStart e"
              "\<forall>new. res = Inr new \<longrightarrow> map_of (activeModules s') instanceId = Some new"
              using createInstances_frame [OF c] by blast
            have "trace s' = trace s @ (e2 @ e3)"
              using e3 e2 by simp
            moreover have "\<forall>e\<in>set (e2 @ e3). \<not> isInvocation e \<and> \<not> isMatrixStart e"
              using e2 e3 by auto
            moreover have "activeTrack s' = activeTrack s"
              using e3(1) l(1) by simp
            ultimately show ?thesis using e3(4) by blast
          qed
        qed
      qed
    qed
  qed
qed


lemma filtered_constructor_plain:
  "\<forall>m\<in>set (filter (\<lambda>method. mc_name method \<noteq> ''matrix'') ms). \<not> isMatrix m"
  by (simp add: isMatrix_def)

lemma updateMatrix_frame:
  assumes "updateMatrix s instanceId opts = (s', r)"
  shows "\<exists>pre post. trace s' = trace s @ pre @ post
      \<and> (\<forall>e\<in>set pre. \<not> isInvocation e \<and> \<not> isMatrixStart e)
      \<and> (\<forall>e\<in>set post. \<not> isMaterialization e \<and> \<not> isMatrixStart e)
      \<and> set (invokedInstances post) \<subseteq> set (instancesOf s' instanceId)"
proof -
  obtain s1 res where rb: "rebuildInstances s instanceId opts = (s1, res)"
    by (meson surj_pair)
  obtain pre where pre: "activeTrack s1 = activeTrack s" "trace s1 = trace s @ pre"
      "\<forall>e\<in>set pre. \<not> isInvocation e \<and> \<not> isMatrixStart e"
      "\<forall>new. res = Inr new \<longrightarrow> map_of (activeModules s1) instanceId = Some new"
    using rebuild_frame [OF rb] by blast
  have stop: ?thesis if "s' = s1"
  proof -
    have "trace s' = trace s @ pre @ []" using that pre by simp
    then show ?thesis using pre(3) by (intro exI [of _ pre] exI [of _ "[]"]) simp
  qed
  show ?thesis
  proof (cases res)
    case (Inl c)
    then have "s' = s1" using assms rb by (simp add: updateMatrix.simps)
    then show ?thesis by (rule stop)
  next
    case (Inr new)
    show ?thesis
    proof (cases "activeTrack s1")
      case None
      then have "s' = s1" using assms rb Inr by (simp add: updateMatrix.simps)
      then show ?thesis by (rule stop)
    next
      case (Some tr)
      show ?thesis
      proof (cases "constructorMethods tr instanceId")
        case (Inl e)
        then have "s' = s1" using assms rb Inr Some by (simp add: updateMatrix.simps)
        then show ?thesis by (rule stop)
      next
        case cm: (Inr ms)
        let ?f = "filter (\<lambda>method. mc_name method \<noteq> ''matrix'') ms"
        show ?thesis
        proof (cases "?f = []")
          case True
          then have "s' = s1" using assms rb Inr Some cm by (simp add: updateMatrix.simps)
          then show ?thesis by (rule stop)
        next
          case False
          have "executeMethods s1 ?f instanceId (Some new) True = (s', r)"
            using assms rb Inr Some cm False by (simp add: updateMatrix.simps)
          then have inv: "invokeMethods s1 ?f instanceId (Some new) = (s', r)"
            using executeMethods_plain [OF filtered_constructor_plain] by simp
          obtain post where post: "trace s' = trace s1 @ post" "activeModules s' = activeModules s1"
              "\<forall>e\<in>set post. \<not> isMaterialization e \<and> \<not> isMatrixStart e"
              "set (invokedInstances post) \<subseteq> set new"
            using invokeMethods_frame [OF inv] by auto
          have "instancesOf s' instanceId = new"
            using pre(4) Inr post(2) by (simp add: instancesOf_def)
          moreover have "trace s' = trace s @ pre @ post"
            using post(1) pre(2) by simp
          ultimately show ?thesis
            using pre(3) post(3,4) by (intro exI [of _ pre] exI [of _ post]) simp
        qed
      qed
    qed
  qed
qed

lemma executeMethods_frame:
  assumes "\<exists>m\<in>set methods. isMatrix m"
    and "executeMethods s methods instanceId insts isConstructor = (s', r)"
  shows "\<exists>pre post. trace s' = trace s @ [MatrixUpdateStart instanceId] @ pre @ post
      \<and> (\<forall>e\<in>set pre. \<not> isInvocation e \<and> \<not> isMatrixStart e)
      \<and> (\<forall>e\<in>set post. \<not> isMaterialization e \<and> \<not> isMatrixStart e)
      \<and> set (invokedInstances post) \<subseteq> set (instancesOf s' instanceId)"
proof -
  let ?opts = "mc_options (last (filter isMatrix methods))"
  let ?others = "filter (\<lambda>m. \<not> isMatrix m) methods"
  obtain s1 c where um: "updateMatrix (emit [MatrixUpdateStart instanceId] s) instanceId ?opts = (s1, c)"
    by (meson surj_pair)
  obtain pre post where pp: "trace s1 = trace s @ [MatrixUpdateStart instanceId] @ pre @ post"
      "\<forall>e\<in>set pre. \<not> isInvocation e \<and> \<not> isMatrixStart e"
      "\<forall>e\<in>set post. \<not> isMaterialization e \<and> \<not> isMatrixStart e"
      "set (invokedInstances post) \<subseteq> set (instancesOf s1 instanceId)"
    using updateMatrix_frame [OF um] by (auto simp: emit_def)
  show ?thesis
  proof (cases "c = Fulfilled")
    case False
    then have "s' = s1"
      using assms(2) um by (cases c) (simp_all add: executeMethods_matrix [OF assms(1)])
    then show ?thesis using pp by blast
  next
    case True
    then have inv: "invokeMethods (emit [MatrixUpdateEnd instanceId] s1) ?others instanceId
        (map_of (activeModules s1) instanceId) = (s', r)"
      using assms(2) um by (simp add: executeMethods_matrix [OF assms(1)])
    obtain evs where evs: "trace s' = trace s1 @ [MatrixUpdateEnd instanceId] @ evs"
        "activeModules s' = activeModules s1"
        "\<forall>e\<in>set evs. \<not> isMaterialization e \<and> \<not> isMatrixStart e"
        "set (invokedInstances evs) \<subseteq> set (instancesOf s1 instanceId)"
      using invokeMethods_frame [OF inv] by (auto simp: emit_def instancesOf_def)
    have same: "instancesOf s' instanceId = instancesOf s1 instanceId"
      using evs(2) by (simp add: instancesOf_def)
    let ?post = "post @ [MatrixUpdateEnd instanceId] @ evs"
    have "trace s' = trace s @ [MatrixUpdateStart instanceId] @ pre @ ?post"
      using evs(1) pp(1) by simp
    moreover have "\<forall>e\<in>set ?post. \<not> isMaterialization e \<and> \<not> isMatrixStart e"
      using pp(3) evs(3) by auto
    moreover have "set (invokedInstances ?post) \<subseteq> set (instancesOf s' instanceId)"
      using pp(4) evs(4) same by (simp add: invokedInstances_append)
    ultimately show ?thesis using pp(2) by blast
  qed
qed

lemma decimal_small: "n < 10 \<Longrightarrow> decimal n = [digit n]"
  by (simp add: decimal.simps)

lemma sample_keys: "cellKey 1 1 = ''1-1''" "cellKey 1 2 = ''1-2''" "cellKey 2 1 = ''2-1''" "cellKey 2 2 = ''2-2''"
  by (simp_all add: cellKey_def decimal_small digit_def)

lemma sample_grid: "gridCells 2 2 = [(1, 1), (1, 2), (2, 1), (2, 2)]"
  by (simp add: gridCells_def upt_rec del: One_nat_def)

lemma sample_retained: "retainedCells 2 2 (JArr [JStr ''1-1'']) = Some [(1, 2), (2, 1), (2, 2)]"
  by (simp add: retainedCells_def sample_grid sample_keys del: One_nat_def)

lemma sample_matrixOptions: "matrixOptionsOf (mc_options matrixCall) =
   \<lparr>mx_rows = JNum 2, mx_cols = JNum 2, mx_excludedCells = JArr [JStr ''1-1''], mx_border = JBool False\<rparr>"
  by (simp add: matrixOptionsOf_def matrixCall_def plainOption_def fromPairs_def getProp_def js_or_def)

lemma rebuild_intro:
  "rebuildInstances (emit [MatrixUpdateStart ''P1''] introActive) ''P1'' (mc_options matrixCall) =
     (introActive
        \<lparr>activeModules := [(''P1'', [sampleCell 1 2, sampleCell 2 1, sampleCell 2 2])],
         moduleClassCache := [''GridDots'' \<mapsto> Inr sampleClass],
         modulesContainer := Some (map inst_elem [sampleCell 1 2, sampleCell 2 1, sampleCell 2 2]),
         trace := [MatrixUpdateStart ''P1'', ImportAttempt ''GridDots'',
                   Constructed (sampleCell 1 2), Constructed (sampleCell 2 1), Constructed (sampleCell 2 2)]\<rparr>,
      Inr [sampleCell 1 2, sampleCell 2 1, sampleCell 2 2])"
  by (simp add: rebuildInstances_def sample_matrixOptions moduleTypeOf_def removeExisting_def instancesOf_def
        createInstances_def sample_retained loadModuleClass_def introActive_def initialProjector_def
        introTrack_def emit_def Let_def placeCell_def getElement_def classList_add_def template_def
        cellStyle_def construct_def sampleClass_def sampleCell_def del: One_nat_def)

lemma resolve_setColor:
  "resolveOptions draws i (mc_options setColor) = ([(''color'', JStr ''#ff0000'')], [], i)"
  by (simp add: resolveOptions_def resolveOption_def setColor_def plainOption_def fromPairs_def)

lemma invoke_setColor:
  assumes "\<forall>inst\<in>set insts. ''setColor'' \<in> set (inst_methods inst) \<and> ''setColor'' \<notin> set (inst_failing inst)"
  shows "invokeMethods s [setColor] instanceId (Some insts) =
     (emit (map (\<lambda>inst. Invoked ''setColor'' inst [(''color'', JStr ''#ff0000'')]) insts) s, Fulfilled)"
proof -
  have n: "mc_name setColor = ''setColor''" by (simp add: setColor_def)
  have m: "map (\<lambda>inst. if mc_name setColor \<in> set (inst_methods inst)
                      then Invoked (mc_name setColor) inst [(''color'', JStr ''#ff0000'')]
                      else WarnMissingMethod (mc_name setColor) instanceId) insts
           = map (\<lambda>inst. Invoked ''setColor'' inst [(''color'', JStr ''#ff0000'')]) insts"
    using assms by (simp add: n)
  have e: "firstError (map (snd \<circ> invokeOn (mc_name setColor) [(''color'', JStr ''#ff0000'')] instanceId) insts) = None"
    using assms by (simp add: invokeOn_errors n)
  have "runMethod instanceId (Some insts) s setColor =
      (emit (map (\<lambda>inst. Invoked ''setColor'' inst [(''color'', JStr ''#ff0000'')]) insts) s, None)"
    unfolding runMethod_some [OF resolve_setColor] m e by (simp add: emit_def)
  then show ?thesis
    by (simp add: invokeMethods_def)
qed

lemma sample_cells_expose:
  "\<forall>inst\<in>set [sampleCell 1 2, sampleCell 2 1, sampleCell 2 2].
     ''setColor'' \<in> set (inst_methods inst) \<and> ''setColor'' \<notin> set (inst_failing inst)"
  by (simp add: sampleCell_def)

lemma introActive_fields:
  "activeTrack introActive = Some introTrack" "trace introActive = []"
  by (simp_all add: introActive_def initialProjector_def)

lemma updateMatrix_intro:
  "updateMatrix (emit [MatrixUpdateStart ''P1''] introActive) ''P1'' (mc_options matrixCall) =
     (introActive
        \<lparr>activeModules := [(''P1'', [sampleCell 1 2, sampleCell 2 1, sampleCell 2 2])],
         moduleClassCache := [''GridDots'' \<mapsto> Inr sampleClass],
         modulesContainer := Some (map inst_elem [sampleCell 1 2, sampleCell 2 1, sampleCell 2 2]),
         trace := [MatrixUpdateStart ''P1'', ImportAttempt ''GridDots'',
                   Constructed (sampleCell 1 2), Constructed (sampleCell 2 1), Constructed (sampleCell 2 2),
                   Invoked ''setColor'' (sampleCell 1 2) [(''color'', JStr ''#ff0000'')],
                   Invoked ''setColor'' (sampleCell 2 1) [(''color'', JStr ''#ff0000'')],
                   Invoked ''setColor'' (sampleCell 2 2) [(''color'', JStr ''#ff0000'')]]\<rparr>,
      Fulfilled)"
proof -
  have c: "constructorMethods introTrack ''P1'' = Inr [matrixCall, setColor]"
    "mc_name matrixCall = ''matrix''" "mc_name setColor \<noteq> ''matrix''"
    by (simp_all add: constructorMethods_def introTrack_def matrixCall_def setColor_def)
  have p: "\<forall>m\<in>set [setColor]. \<not> isMatrix m"
    by (simp add: isMatrix_def setColor_def)
  show ?thesis
    unfolding updateMatrix.simps rebuild_intro
    by (simp add: introActive_fields c
          executeMethods_plain [OF p] invoke_setColor [OF sample_cells_expose] emit_def
          del: One_nat_def)
qed

lemma executeMethods_intro:
  "executeMethods introActive [matrixCall, setColor] ''P1'' insts True =
     (introActive
        \<lparr>activeModules := [(''P1'', [sampleCell 1 2, sampleCell 2 1, sampleCell 2 2])],
         moduleClassCache := [''GridDots'' \<mapsto> Inr sampleClass],
         modulesContainer := Some (map inst_elem [sampleCell 1 2, sampleCell 2 1, sampleCell 2 2]),
         trace := [MatrixUpdateStart ''P1'', ImportAttempt ''GridDots'',
                   Constructed (sampleCell 1 2), Constructed (sampleCell 2 1), Constructed (sampleCell 2 2),
                   Invoked ''setColor'' (sampleCell 1 2) [(''color'', JStr ''#ff0000'')],
                   Invoked ''setColor'' (sampleCell 2 1) [(''color'', JStr ''#ff0000'')],
                   Invoked ''setColor'' (sampleCell 2 2) [(''color'', JStr ''#ff0000'')],
                   MatrixUpdateEnd ''P1'',
                   Invoked ''setColor'' (sampleCell 1 2) [(''color'', JStr ''#ff0000'')],
                   Invoked ''setColor'' (sampleCell 2 1) [(''color'', JStr ''#ff0000'')],
                   Invoked ''setColor'' (sampleCell 2 2) [(''color'', JStr ''#ff0000'')]]\<rparr>,
      Fulfilled)"
proof -
  have m: "\<exists>m\<in>set [matrixCall, setColor]. isMatrix m"
    by (simp add: isMatrix_def matrixCall_def)
  have f: "filter isMatrix [matrixCall, setColor] = [matrixCall]"
    "filter (\<lambda>m. \<not> isMatrix m) [matrixCall, setColor] = [setColor]"
    by (simp_all add: isMatrix_def matrixCall_def setColor_def)
  have l: "mc_options (last (filter isMatrix [matrixCall, setColor])) = mc_options matrixCall"
    unfolding f by simp
  show ?thesis
    unfolding executeMethods_matrix [OF m] l f(2) updateMatrix_intro
    by (simp add: invoke_setColor [OF sample_cells_expose] emit_def del: One_nat_def)
qed

lemma runMethods_trace:
  "trace (fst (runMethods instanceId (Some insts) s ms))
     = trace s @ dispatchTrace (rnd s) (rndNext s) instanceId insts ms"
proof (induction ms arbitrary: s)
  case Nil
  then show ?case by simp
next
  case (Cons m ms)
  obtain opts warnings j where ro: "resolveOptions (rnd s) (rndNext s) (mc_options m) = (opts, warnings, j)"
    by (cases "resolveOptions (rnd s) (rndNext s) (mc_options m)") auto
  let ?d = "map (\<lambda>inst. if mc_name m \<in> set (inst_methods inst)
                          then Invoked (mc_name m) inst opts
                          else WarnMissingMethod (mc_name m) instanceId) insts"
  let ?s1 = "(emit (warnings @ ?d) s)\<lparr>rndNext := j\<rparr>"
  have s1: "rnd ?s1 = rnd s" "rndNext ?s1 = j" "trace ?s1 = trace s @ warnings @ ?d"
    by (simp_all add: emit_def)
  have "trace (fst (runMethods instanceId (Some insts) ?s1 ms))
      = trace ?s1 @ dispatchTrace (rnd ?s1) (rndNext ?s1) instanceId insts ms"
    by (rule Cons.IH)
  then have rest: "trace (fst (runMethods instanceId (Some insts) ?s1 ms))
      = trace s @ warnings @ ?d @ dispatchTrace (rnd s) j instanceId insts ms"
    unfolding s1 by simp
  show ?case
    using rest by (simp add: runMethod_some [OF ro] ro split_beta)
qed

lemma invokeMethods_trace:
  "trace (fst (invokeMethods s ms instanceId (Some insts)))
     = trace s @ dispatchTrace (rnd s) (rndNext s) instanceId insts ms"
  using runMethods_trace [of instanceId insts s ms]
  by (simp add: invokeMethods_def split_beta)

lemma updateMatrix_stale:
  "updateMatrix (emit [MatrixUpdateStart ''P1''] staleActive) ''P1'' (mc_options matrixCall)
     = (staleActive
          \<lparr>trace := [MatrixUpdateStart ''P1'',
                     Destroyed (sampleInstance ''GridDots'' (DestroyThrows ''boom''))]\<rparr>,
        Rejected (ModuleError ''boom''))"
  by (simp add: updateMatrix.simps rebuildInstances_def moduleTypeOf_def removeExisting_def
        instancesOf_def staleActive_def initialProjector_def introTrack_def
        sampleInstance_def emit_def Let_def)

text \<open>
  C3.  In a batch that holds a matrix call, \<open>executeMethods\<close> first runs the matrix step
  \<open>updateMatrix\<close> on the options of the last matrix call, to its end.  Within that step
  nothing is invoked before the last instance is destroyed or constructed.  If the step
  does not fulfil, the batch ends there, in the state and with the outcome of the step:
  no other call runs.  If it fulfils, the other calls of the batch run, in their order,
  on the instance list that the step left for the placement, and on nothing else: the
  trace after the step is the end marker followed by exactly the dispatch of every other
  call to every instance of that list, the instance list is left as the step made it,
  and nothing is destroyed or constructed any more.  The list passed by the caller plays
  no part in the result.
\<close>

theorem C3_matrix_before_other_calls:
  "(\<exists>m\<in>set methods. isMatrix m)
   \<and> updateMatrix (emit [MatrixUpdateStart instanceId] s) instanceId
        (mc_options (last (filter isMatrix methods))) = (s1, c)
   \<and> executeMethods s methods instanceId insts isConstructor = (s', r) \<longrightarrow>
     (\<exists>pre post. trace s1 = trace s @ [MatrixUpdateStart instanceId] @ pre @ post
         \<and> (\<forall>e\<in>set pre. \<not> isInvocation e)
         \<and> (\<forall>e\<in>set post. \<not> isMaterialization e))
     \<and> (c \<noteq> Fulfilled \<longrightarrow> s' = s1 \<and> r = c)
     \<and> (c = Fulfilled \<longrightarrow>
          (s', r) = invokeMethods (emit [MatrixUpdateEnd instanceId] s1)
                      (filter (\<lambda>m. \<not> isMatrix m) methods) instanceId
                      (map_of (activeModules s1) instanceId)
          \<and> activeModules s' = activeModules s1
          \<and> (map_of (activeModules s1) instanceId = Some l \<longrightarrow>
               trace s' = trace s1 @ [MatrixUpdateEnd instanceId]
                            @ dispatchTrace (rnd s1) (rndNext s1) instanceId l
                                (filter (\<lambda>m. \<not> isMatrix m) methods)))
     \<and> (\<exists>pre post. trace s' = trace s @ pre @ post
         \<and> (\<forall>e\<in>set pre. \<not> isInvocation e)
         \<and> (\<forall>e\<in>set post. \<not> isMaterialization e)
         \<and> set (invokedInstances (pre @ post)) \<subseteq> set (instancesOf s' instanceId))
     \<and> executeMethods s methods instanceId insts' isConstructor = (s', r)"
proof (intro impI conjI)
  let ?others = "filter (\<lambda>m. \<not> isMatrix m) methods"
  assume h: "(\<exists>m\<in>set methods. isMatrix m)
   \<and> updateMatrix (emit [MatrixUpdateStart instanceId] s) instanceId
        (mc_options (last (filter isMatrix methods))) = (s1, c)
   \<and> executeMethods s methods instanceId insts isConstructor = (s', r)"
  then have m: "\<exists>m\<in>set methods. isMatrix m"
    and um: "updateMatrix (emit [MatrixUpdateStart instanceId] s) instanceId
        (mc_options (last (filter isMatrix methods))) = (s1, c)"
    and ex: "executeMethods s methods instanceId insts isConstructor = (s', r)"
    by simp_all
  obtain pre1 post1 where p1: "trace s1 = trace s @ [MatrixUpdateStart instanceId] @ pre1 @ post1"
      "\<forall>e\<in>set pre1. \<not> isInvocation e \<and> \<not> isMatrixStart e"
      "\<forall>e\<in>set post1. \<not> isMaterialization e \<and> \<not> isMatrixStart e"
    using updateMatrix_frame [OF um] by (auto simp: emit_def)
  then show "\<exists>pre post. trace s1 = trace s @ [MatrixUpdateStart instanceId] @ pre @ post
         \<and> (\<forall>e\<in>set pre. \<not> isInvocation e)
         \<and> (\<forall>e\<in>set post. \<not> isMaterialization e)"
    by blast
  have stop: "s' = s1 \<and> r = c" if "c \<noteq> Fulfilled"
    using that ex um by (cases c) (simp_all add: executeMethods_matrix [OF m])
  then show "c \<noteq> Fulfilled \<Longrightarrow> s' = s1" "c \<noteq> Fulfilled \<Longrightarrow> r = c"
    by simp_all
  have go: "(s', r) = invokeMethods (emit [MatrixUpdateEnd instanceId] s1) ?others instanceId
                      (map_of (activeModules s1) instanceId)" if "c = Fulfilled"
    using that ex um by (simp add: executeMethods_matrix [OF m])
  then show "c = Fulfilled \<Longrightarrow> (s', r) = invokeMethods (emit [MatrixUpdateEnd instanceId] s1) ?others instanceId
                      (map_of (activeModules s1) instanceId)" .
  show "activeModules s' = activeModules s1" if "c = Fulfilled"
    using invokeMethods_frame [OF go [OF that, symmetric]] by (auto simp: emit_def)
  show "trace s' = trace s1 @ [MatrixUpdateEnd instanceId]
                            @ dispatchTrace (rnd s1) (rndNext s1) instanceId l ?others"
    if "c = Fulfilled" and l: "map_of (activeModules s1) instanceId = Some l"
  proof -
    have "s' = fst (invokeMethods (emit [MatrixUpdateEnd instanceId] s1) ?others instanceId (Some l))"
      using go [OF that(1)] l by (metis fst_conv)
    then show ?thesis
      by (simp add: invokeMethods_trace emit_def)
  qed
  obtain pre post where pp:
      "trace s' = trace s @ [MatrixUpdateStart instanceId] @ pre @ post"
      "\<forall>e\<in>set pre. \<not> isInvocation e \<and> \<not> isMatrixStart e"
      "\<forall>e\<in>set post. \<not> isMaterialization e \<and> \<not> isMatrixStart e"
      "set (invokedInstances post) \<subseteq> set (instancesOf s' instanceId)"
    using executeMethods_frame [OF m ex] by blast
  let ?pre = "MatrixUpdateStart instanceId # pre"
  have "trace s' = trace s @ ?pre @ post" using pp(1) by simp
  moreover have "\<forall>e\<in>set ?pre. \<not> isInvocation e" using pp(2) by simp
  moreover have "invokedInstances ?pre = []"
    using pp(2) by (simp add: invokedInstances_none)
  then have "set (invokedInstances (?pre @ post)) \<subseteq> set (instancesOf s' instanceId)"
    using pp(4) by (simp only: invokedInstances_append append_Nil)
  ultimately show "\<exists>pre post. trace s' = trace s @ pre @ post
         \<and> (\<forall>e\<in>set pre. \<not> isInvocation e)
         \<and> (\<forall>e\<in>set post. \<not> isMaterialization e)
         \<and> set (invokedInstances (pre @ post)) \<subseteq> set (instancesOf s' instanceId)"
    using pp(3) by blast
  have "executeMethods s methods instanceId insts' isConstructor
      = executeMethods s methods instanceId insts isConstructor"
    by (simp only: executeMethods_matrix [OF m])
  then show "executeMethods s methods instanceId insts' isConstructor = (s', r)"
    using ex by simp
qed


theorem C3_matrix_before_other_calls_witness:
  "trace (fst (executeMethods introActive [matrixCall, setColor] ''P1'' (Some []) True))
     = [MatrixUpdateStart ''P1'', ImportAttempt ''GridDots'',
        Constructed (sampleCell 1 2), Constructed (sampleCell 2 1), Constructed (sampleCell 2 2),
        Invoked ''setColor'' (sampleCell 1 2) [(''color'', JStr ''#ff0000'')],
        Invoked ''setColor'' (sampleCell 2 1) [(''color'', JStr ''#ff0000'')],
        Invoked ''setColor'' (sampleCell 2 2) [(''color'', JStr ''#ff0000'')],
        MatrixUpdateEnd ''P1'',
        Invoked ''setColor'' (sampleCell 1 2) [(''color'', JStr ''#ff0000'')],
        Invoked ''setColor'' (sampleCell 2 1) [(''color'', JStr ''#ff0000'')],
        Invoked ''setColor'' (sampleCell 2 2) [(''color'', JStr ''#ff0000'')]]
   \<and> instancesOf (fst (executeMethods introActive [matrixCall, setColor] ''P1'' (Some []) True)) ''P1''
     = [sampleCell 1 2, sampleCell 2 1, sampleCell 2 2]
   \<and> trace (fst (executeMethods introActive [matrixCall, setColor] ''P1'' (Some []) True))
     = trace (fst (updateMatrix (emit [MatrixUpdateStart ''P1''] introActive) ''P1'' (mc_options matrixCall)))
       @ [MatrixUpdateEnd ''P1'']
       @ dispatchTrace (rnd introActive) (rndNext introActive) ''P1''
           [sampleCell 1 2, sampleCell 2 1, sampleCell 2 2]
           (filter (\<lambda>m. \<not> isMatrix m) [matrixCall, setColor])
   \<and> (\<exists>pre post.
        trace (fst (executeMethods introActive [matrixCall, setColor] ''P1'' (Some []) True))
          = trace introActive @ pre @ post
        \<and> (\<forall>e\<in>set pre. \<not> isInvocation e)
        \<and> (\<forall>e\<in>set post. \<not> isMaterialization e)
        \<and> set (invokedInstances (pre @ post))
            \<subseteq> set (instancesOf (fst (executeMethods introActive [matrixCall, setColor] ''P1'' (Some []) True)) ''P1''))
   \<and> executeMethods introActive [matrixCall, setColor] ''P1'' None True
     = executeMethods introActive [matrixCall, setColor] ''P1'' (Some []) True
   \<and> fst (executeMethods staleActive [matrixCall, setColor] ''P1'' None False)
     = staleActive\<lparr>trace := [MatrixUpdateStart ''P1'',
                               Destroyed (sampleInstance ''GridDots'' (DestroyThrows ''boom''))]\<rparr>
   \<and> snd (executeMethods staleActive [matrixCall, setColor] ''P1'' None False)
     = Rejected (ModuleError ''boom'')"
proof -
  let ?run = "executeMethods introActive [matrixCall, setColor] ''P1'' (Some []) True"
  let ?um = "updateMatrix (emit [MatrixUpdateStart ''P1''] introActive) ''P1'' (mc_options matrixCall)"
  let ?cells = "[sampleCell 1 2, sampleCell 2 1, sampleCell 2 2]"
  let ?bad = "executeMethods staleActive [matrixCall, setColor] ''P1'' None False"
  let ?torn = "staleActive\<lparr>trace := [MatrixUpdateStart ''P1'',
                               Destroyed (sampleInstance ''GridDots'' (DestroyThrows ''boom''))]\<rparr>"
  have m: "\<exists>m\<in>set [matrixCall, setColor]. isMatrix m"
    by (simp add: isMatrix_def matrixCall_def)
  have l: "mc_options (last (filter isMatrix [matrixCall, setColor])) = mc_options matrixCall"
    by (simp add: isMatrix_def matrixCall_def setColor_def)
  have u: "updateMatrix (emit [MatrixUpdateStart ''P1''] introActive) ''P1''
             (mc_options (last (filter isMatrix [matrixCall, setColor]))) = (fst ?um, Fulfilled)"
    unfolding l updateMatrix_intro by simp
  have e: "?run = (fst ?run, snd ?run)"
    by simp
  have a: "map_of (activeModules (fst ?um)) ''P1'' = Some ?cells"
    unfolding updateMatrix_intro by simp
  have d: "rnd (fst ?um) = rnd introActive" "rndNext (fst ?um) = rndNext introActive"
    unfolding updateMatrix_intro by simp_all
  have t: "trace (fst ?run)
     = [MatrixUpdateStart ''P1'', ImportAttempt ''GridDots'',
        Constructed (sampleCell 1 2), Constructed (sampleCell 2 1), Constructed (sampleCell 2 2),
        Invoked ''setColor'' (sampleCell 1 2) [(''color'', JStr ''#ff0000'')],
        Invoked ''setColor'' (sampleCell 2 1) [(''color'', JStr ''#ff0000'')],
        Invoked ''setColor'' (sampleCell 2 2) [(''color'', JStr ''#ff0000'')],
        MatrixUpdateEnd ''P1'',
        Invoked ''setColor'' (sampleCell 1 2) [(''color'', JStr ''#ff0000'')],
        Invoked ''setColor'' (sampleCell 2 1) [(''color'', JStr ''#ff0000'')],
        Invoked ''setColor'' (sampleCell 2 2) [(''color'', JStr ''#ff0000'')]]"
    "instancesOf (fst ?run) ''P1'' = ?cells"
    unfolding executeMethods_intro by (simp_all add: instancesOf_def)
  note c = C3_matrix_before_other_calls [of "[matrixCall, setColor]" "''P1''" introActive
        "fst ?um" Fulfilled "Some []" True "fst ?run" "snd ?run" ?cells None,
        THEN mp, OF conjI [OF m conjI [OF u e]]]
  note c3 = c [THEN conjunct2, THEN conjunct2, THEN conjunct1, THEN mp, OF refl]
  have c3c: "trace (fst ?run) = trace (fst ?um) @ [MatrixUpdateEnd ''P1'']
       @ dispatchTrace (rnd introActive) (rndNext introActive) ''P1'' ?cells
           (filter (\<lambda>m. \<not> isMatrix m) [matrixCall, setColor])"
    using c3 [THEN conjunct2, THEN conjunct2, THEN mp, OF a] unfolding d .
  note c4 = c [THEN conjunct2, THEN conjunct2, THEN conjunct2, THEN conjunct1]
  have "executeMethods introActive [matrixCall, setColor] ''P1'' None True = (fst ?run, snd ?run)"
    by (rule c [THEN conjunct2, THEN conjunct2, THEN conjunct2, THEN conjunct2])
  then have c5: "executeMethods introActive [matrixCall, setColor] ''P1'' None True = ?run"
    by simp
  have ub: "updateMatrix (emit [MatrixUpdateStart ''P1''] staleActive) ''P1''
             (mc_options (last (filter isMatrix [matrixCall, setColor])))
            = (?torn, Rejected (ModuleError ''boom''))"
    unfolding l by (rule updateMatrix_stale)
  have eb: "?bad = (fst ?bad, snd ?bad)"
    by simp
  have nb: "Rejected (ModuleError ''boom'') \<noteq> Fulfilled"
    by simp
  note b = C3_matrix_before_other_calls [of "[matrixCall, setColor]" "''P1''" staleActive
        ?torn "Rejected (ModuleError ''boom'')" None False "fst ?bad" "snd ?bad" "[]" None,
        THEN mp, OF conjI [OF m conjI [OF ub eb]], THEN conjunct2, THEN conjunct1, THEN mp, OF nb]
  show ?thesis
    by (intro conjI t c3c c4 c5 b [THEN conjunct1] b [THEN conjunct2])
qed

lemma last_matrix_batch:
  assumes "filter isMatrix methods \<noteq> []"
  shows "filter isMatrix (last (filter isMatrix methods) # filter (\<lambda>m. \<not> isMatrix m) methods)
           = [last (filter isMatrix methods)]"
    and "filter (\<lambda>m. \<not> isMatrix m) (last (filter isMatrix methods) # filter (\<lambda>m. \<not> isMatrix m) methods)
           = filter (\<lambda>m. \<not> isMatrix m) methods"
proof -
  have "last (filter isMatrix methods) \<in> set (filter isMatrix methods)"
    using assms by (rule last_in_set)
  then have l: "isMatrix (last (filter isMatrix methods))" by simp
  have n: "filter isMatrix (filter (\<lambda>m. \<not> isMatrix m) methods) = []"
    by (simp add: filter_empty_conv)
  show "filter isMatrix (last (filter isMatrix methods) # filter (\<lambda>m. \<not> isMatrix m) methods)
           = [last (filter isMatrix methods)]"
    using l n by simp
  show "filter (\<lambda>m. \<not> isMatrix m) (last (filter isMatrix methods) # filter (\<lambda>m. \<not> isMatrix m) methods)
           = filter (\<lambda>m. \<not> isMatrix m) methods"
    using l by simp
qed

text \<open>
  C10.  When a batch holds more than one matrix call, the separation keeps the options of
  the last one only; the batch behaves as the batch made of that last matrix call and
  the other calls, whatever the earlier matrix calls hold; and its trace starts exactly
  one matrix update.
\<close>

theorem C10_last_matrix_call_wins:
  "2 \<le> length (filter isMatrix methods) \<longrightarrow>
     separateMatrix methods
       = (True, Some (mc_options (last (filter isMatrix methods))), filter (\<lambda>m. \<not> isMatrix m) methods)
     \<and> executeMethods s methods instanceId insts isConstructor
       = executeMethods s (last (filter isMatrix methods) # filter (\<lambda>m. \<not> isMatrix m) methods)
           instanceId insts isConstructor
     \<and> (\<exists>evs. trace (fst (executeMethods s methods instanceId insts isConstructor)) = trace s @ evs
            \<and> length (filter isMatrixStart evs) = 1)"
proof (intro impI conjI)
  assume h: "2 \<le> length (filter isMatrix methods)"
  then have ne: "filter isMatrix methods \<noteq> []" by auto
  then have m: "\<exists>m\<in>set methods. isMatrix m"
    by (simp add: filter_empty_conv)
  show "separateMatrix methods
       = (True, Some (mc_options (last (filter isMatrix methods))), filter (\<lambda>m. \<not> isMatrix m) methods)"
    using ne m by (simp add: separateMatrix_eq)
  let ?batch = "last (filter isMatrix methods) # filter (\<lambda>m. \<not> isMatrix m) methods"
  have "last (filter isMatrix methods) \<in> set (filter isMatrix methods)"
    using ne by (rule last_in_set)
  then have m': "\<exists>m\<in>set ?batch. isMatrix m" by simp
  show "executeMethods s methods instanceId insts isConstructor
       = executeMethods s ?batch instanceId insts isConstructor"
    unfolding executeMethods_matrix [OF m] executeMethods_matrix [OF m'] last_matrix_batch [OF ne]
    by simp
  obtain s' r where run: "executeMethods s methods instanceId insts isConstructor = (s', r)"
    by (meson surj_pair)
  obtain pre post where pp:
      "trace s' = trace s @ [MatrixUpdateStart instanceId] @ pre @ post"
      "\<forall>e\<in>set pre. \<not> isInvocation e \<and> \<not> isMatrixStart e"
      "\<forall>e\<in>set post. \<not> isMaterialization e \<and> \<not> isMatrixStart e"
    using executeMethods_frame [OF m run] by blast
  have "filter isMatrixStart pre = []" "filter isMatrixStart post = []"
    using pp(2,3) by (simp_all add: filter_empty_conv)
  then have "length (filter isMatrixStart ([MatrixUpdateStart instanceId] @ pre @ post)) = 1"
    by simp
  then show "\<exists>evs. trace (fst (executeMethods s methods instanceId insts isConstructor)) = trace s @ evs
            \<and> length (filter isMatrixStart evs) = 1"
    using pp(1) run by (intro exI [of _ "[MatrixUpdateStart instanceId] @ pre @ post"]) simp
qed

theorem C10_last_matrix_call_wins_witness:
  "separateMatrix
     [\<lparr>mc_name = ''matrix'', mc_options = [plainOption ''matrix'' (JArr [JNum 3, JNum 3])]\<rparr>,
      setColor, matrixCall]
     = (True, Some (mc_options matrixCall), [setColor])
   \<and> instancesOf (fst (executeMethods introActive
        [\<lparr>mc_name = ''matrix'', mc_options = [plainOption ''matrix'' (JArr [JNum 3, JNum 3])]\<rparr>,
         setColor, matrixCall] ''P1'' (Some []) True)) ''P1''
     = [sampleCell 1 2, sampleCell 2 1, sampleCell 2 2]
   \<and> (\<exists>evs. trace (fst (executeMethods introActive
        [\<lparr>mc_name = ''matrix'', mc_options = [plainOption ''matrix'' (JArr [JNum 3, JNum 3])]\<rparr>,
         setColor, matrixCall] ''P1'' (Some []) True)) = trace introActive @ evs
        \<and> length (filter isMatrixStart evs) = 1)"
proof -
  let ?first = "\<lparr>mc_name = ''matrix'', mc_options = [plainOption ''matrix'' (JArr [JNum 3, JNum 3])]\<rparr>"
  let ?batch = "[?first, setColor, matrixCall]"
  have f: "filter isMatrix ?batch = [?first, matrixCall]"
    "filter (\<lambda>m. \<not> isMatrix m) ?batch = [setColor]"
    by (simp_all add: isMatrix_def matrixCall_def setColor_def)
  have two: "2 \<le> length (filter isMatrix ?batch)"
    unfolding f by simp
  have l: "last (filter isMatrix ?batch) = matrixCall"
    unfolding f by simp
  have i: "instancesOf (fst (executeMethods introActive [matrixCall, setColor] ''P1'' (Some []) True)) ''P1''
     = [sampleCell 1 2, sampleCell 2 1, sampleCell 2 2]"
    unfolding executeMethods_intro by (simp add: instancesOf_def)
  note c = C10_last_matrix_call_wins [of ?batch introActive "''P1''" "Some []" True, THEN mp, OF two,
      unfolded l f(2)]
  from c have c1: "separateMatrix ?batch = (True, Some (mc_options matrixCall), [setColor])"
    by (rule conjunct1)
  from c have c2: "executeMethods introActive ?batch ''P1'' (Some []) True
      = executeMethods introActive [matrixCall, setColor] ''P1'' (Some []) True"
    by (rule conjunct2 [THEN conjunct1])
  from c have c3: "\<exists>evs. trace (fst (executeMethods introActive ?batch ''P1'' (Some []) True))
        = trace introActive @ evs \<and> length (filter isMatrixStart evs) = 1"
    by (rule conjunct2 [THEN conjunct2])
  have i': "instancesOf (fst (executeMethods introActive ?batch ''P1'' (Some []) True)) ''P1''
     = [sampleCell 1 2, sampleCell 2 1, sampleCell 2 2]"
    unfolding c2 by (rule i)
  show ?thesis
    by (intro conjI c1 i' c3)
qed

section \<open>Grid layout and materialization\<close>

lemma digit_inj: "a < 10 \<Longrightarrow> b < 10 \<Longrightarrow> digit a = digit b \<Longrightarrow> a = b"
proof -
  assume a: "a < 10" and b: "b < 10" and e: "digit a = digit b"
  have d: "distinct ''0123456789''" by simp
  have "a < length ''0123456789''" "b < length ''0123456789''" using a b by simp_all
  then show "a = b"
    using e d unfolding digit_def by (simp only: nth_eq_iff_index_eq)
qed

lemma digit_not_dash: "d < 10 \<Longrightarrow> digit d \<noteq> CHR ''-''"
proof -
  assume "d < 10"
  then have "d < length ''0123456789''" by simp
  then have "digit d \<in> set ''0123456789''" unfolding digit_def by (rule nth_mem)
  then show ?thesis by auto
qed

lemma decimal_nonempty: "decimal n \<noteq> []"
  by (subst decimal.simps) simp

lemma decimal_no_dash: "CHR ''-'' \<notin> set (decimal n)"
proof (induction n rule: decimal.induct)
  case (1 n)
  show ?case
  proof (cases "n < 10")
    case True
    then show ?thesis using digit_not_dash [of n] by (subst decimal.simps) auto
  next
    case False
    have "n mod 10 < 10" by simp
    then have "digit (n mod 10) \<noteq> CHR ''-''" by (rule digit_not_dash)
    then show ?thesis using False 1 by (subst decimal.simps) auto
  qed
qed

lemma decimal_inj: "decimal n = decimal m \<Longrightarrow> n = m"
proof (induction n arbitrary: m rule: decimal.induct)
  case (1 n)
  show ?case
  proof (cases "n < 10")
    case n: True
    show ?thesis
    proof (cases "m < 10")
      case True
      then have "[digit n] = [digit m]"
        using 1(2) n by (simp add: decimal.simps [of n] decimal.simps [of m])
      then show ?thesis using digit_inj n True by simp
    next
      case False
      then have "[digit n] = decimal (m div 10) @ [digit (m mod 10)]"
        using 1(2) n by (simp add: decimal.simps [of n] decimal.simps [of m])
      then have "decimal (m div 10) = []" by simp
      then show ?thesis using decimal_nonempty by blast
    qed
  next
    case n: False
    show ?thesis
    proof (cases "m < 10")
      case True
      then have "decimal (n div 10) @ [digit (n mod 10)] = [digit m]"
        using 1(2) n by (simp add: decimal.simps [of n] decimal.simps [of m])
      then have "decimal (n div 10) = []" by simp
      then show ?thesis using decimal_nonempty by blast
    next
      case False
      then have "decimal (n div 10) @ [digit (n mod 10)] = decimal (m div 10) @ [digit (m mod 10)]"
        using 1(2) n by (simp add: decimal.simps [of n] decimal.simps [of m])
      then have a: "decimal (n div 10) = decimal (m div 10)" and b: "digit (n mod 10) = digit (m mod 10)"
        by simp_all
      have "n div 10 = m div 10" using 1(1) [OF n a] .
      moreover have "n mod 10 = m mod 10"
        using digit_inj [OF _ _ b] by simp
      ultimately show ?thesis
        by (metis div_mult_mod_eq)
    qed
  qed
qed

lemma split_at_dash:
  "xs @ CHR ''-'' # ys = xs' @ CHR ''-'' # ys' \<Longrightarrow> CHR ''-'' \<notin> set xs \<Longrightarrow> CHR ''-'' \<notin> set xs' \<Longrightarrow>
   xs = xs' \<and> ys = ys'"
proof (induction xs arbitrary: xs')
  case Nil
  then show ?case by (cases xs') auto
next
  case (Cons a xs)
  then show ?case by (cases xs') auto
qed

lemma cellKey_inj: "cellKey r c = cellKey r' c' \<Longrightarrow> r = r' \<and> c = c'"
proof -
  assume "cellKey r c = cellKey r' c'"
  then have "decimal r @ CHR ''-'' # decimal c = decimal r' @ CHR ''-'' # decimal c'"
    by (simp add: cellKey_def)
  then have "decimal r = decimal r' \<and> decimal c = decimal c'"
    using split_at_dash decimal_no_dash by blast
  then show ?thesis using decimal_inj by blast
qed

lemma gridCells_nat:
  "gridCells (real r) (real c) = concat (map (\<lambda>row. map (\<lambda>col. (row, col)) [1..<Suc c]) [1..<Suc r])"
  by (simp add: gridCells_def del: upt_Suc)

lemma gridCells_product:
  "gridCells (real r) (real c) = List.product [1..<Suc r] [1..<Suc c]"
  by (simp only: gridCells_nat product_concat_map)

lemma gridCells_set:
  "set (gridCells (real r) (real c)) = {(row, col). 1 \<le> row \<and> row \<le> r \<and> 1 \<le> col \<and> col \<le> c}"
  by (auto simp: gridCells_product simp del: upt_Suc)

lemma gridCells_distinct: "distinct (gridCells (real r) (real c))"
  by (simp add: gridCells_product distinct_product del: upt_Suc)

lemma gridCells_length: "length (gridCells (real r) (real c)) = r * c"
  by (simp add: gridCells_product del: upt_Suc)

lemma keepCells_array:
  "keepCells (JArr xs) cells = Some (filter (\<lambda>(row, col). JStr (cellKey row col) \<notin> set xs) cells)"
  by (induction cells) auto

lemma retained_count:
  "length (filter (\<lambda>(row, col). JStr (cellKey row col) \<notin> set xs) (gridCells (real r) (real c)))
     = r * c - card ({k. JStr k \<in> set xs}
                     \<inter> {cellKey row col | row col. 1 \<le> row \<and> row \<le> r \<and> 1 \<le> col \<and> col \<le> c})"
proof -
  let ?cells = "gridCells (real r) (real c)"
  let ?key = "\<lambda>(row, col). cellKey row col"
  let ?E = "{k. JStr k \<in> set xs}"
  have inj: "inj_on ?key (set ?cells)"
    using cellKey_inj by (auto simp: inj_on_def)
  have valid: "?key ` set ?cells
      = {cellKey row col | row col. 1 \<le> row \<and> row \<le> r \<and> 1 \<le> col \<and> col \<le> c}"
    by (auto simp: gridCells_set image_iff)
  have part: "length (filter (\<lambda>x. ?key x \<notin> ?E) ?cells) + length (filter (\<lambda>x. ?key x \<in> ?E) ?cells)
      = length ?cells"
    using sum_length_filter_compl [of "\<lambda>x. ?key x \<notin> ?E" ?cells] by simp
  have "length (filter (\<lambda>x. ?key x \<in> ?E) ?cells) = card {x \<in> set ?cells. ?key x \<in> ?E}"
    using gridCells_distinct [of r c] by (simp add: distinct_length_filter Int_def conj_commute)
  also have "\<dots> = card (?key ` {x \<in> set ?cells. ?key x \<in> ?E})"
    by (rule card_image [symmetric]) (rule inj_on_subset [OF inj], auto)
  also have "?key ` {x \<in> set ?cells. ?key x \<in> ?E} = ?E \<inter> ?key ` set ?cells"
    by auto
  finally have ex: "length (filter (\<lambda>x. ?key x \<in> ?E) ?cells) = card (?E \<inter> ?key ` set ?cells)" .
  have "(\<lambda>(row, col). JStr (cellKey row col) \<notin> set xs) = (\<lambda>x. ?key x \<notin> ?E)"
    by auto
  then show ?thesis
    using part ex by (simp add: gridCells_length valid)
qed


lemma placeCell_styles:
  "map el_style (fst (foldl (placeCell t instanceId style) (acc, pl) cells))
     = map el_style acc @ map (\<lambda>cell. Some (style cell)) cells"
proof (induction cells arbitrary: acc pl)
  case Nil
  then show ?case by simp
next
  case (Cons cell cells)
  obtain e pl' where g: "getElement pl t = (e, pl')" by (meson surj_pair)
  have step: "placeCell t instanceId style (acc, pl) cell
      = (acc @ [e\<lparr>el_instanceId := Some instanceId, el_style := Some (style cell), el_hidden := False\<rparr>], pl')"
    by (simp add: placeCell_def g)
  show ?case
    by (simp add: step Cons.IH)
qed

lemma instantiate_total:
  assumes "\<forall>e. cls e \<noteq> None"
  shows "snd (instantiate cls elems) = True \<and> map inst_elem (fst (instantiate cls elems)) = elems"
proof (induction elems)
  case Nil
  then show ?case by simp
next
  case (Cons e elems)
  obtain ms fs d where c: "cls e = Some (ms, fs, d)"
    using assms by (metis option.exhaust prod_cases3)
  obtain insts ok where i: "instantiate cls elems = (insts, ok)" by (meson surj_pair)
  show ?case
    using Cons.IH by (simp add: construct_def c i)
qed

lemma createInstances_ok:
  assumes "mx_rows mo = JNum (real r)" "mx_cols mo = JNum (real c)" "mx_excludedCells mo = JArr xs"
    and "\<forall>e. cls e \<noteq> None"
  shows "\<exists>s' insts. createInstances s instanceId t z mo cls = (s', Inr insts)
     \<and> map (\<lambda>inst. el_style (inst_elem inst)) insts
         = map (\<lambda>cell. Some (cellStyle (real r) (real c) z (mx_border mo) cell))
             (filter (\<lambda>(row, col). JStr (cellKey row col) \<notin> set xs) (gridCells (real r) (real c)))"
proof -
  let ?cells = "filter (\<lambda>(row, col). JStr (cellKey row col) \<notin> set xs) (gridCells (real r) (real c))"
  let ?style = "cellStyle (real r) (real c) z (mx_border mo)"
  have rc: "retainedCells (real r) (real c) (JArr xs) = Some ?cells"
    by (simp add: retainedCells_def keepCells_array)
  obtain elems pl where f: "foldl (placeCell t instanceId ?style) ([], pool s) ?cells = (elems, pl)"
    by (meson surj_pair)
  have st: "map el_style elems = map (\<lambda>cell. Some (?style cell)) ?cells"
    using placeCell_styles [of t instanceId ?style "[]" "pool s" ?cells] f by simp
  obtain insts ok where i: "instantiate cls elems = (insts, ok)" by (meson surj_pair)
  have ok: "ok = True" and el: "map inst_elem insts = elems"
    using instantiate_total [OF assms(4), of elems] i by simp_all
  have "map (\<lambda>inst. el_style (inst_elem inst)) insts = map el_style (map inst_elem insts)"
    by simp
  then have styles: "map (\<lambda>inst. el_style (inst_elem inst)) insts = map (\<lambda>cell. Some (?style cell)) ?cells"
    unfolding el st .
  have "\<exists>s'. createInstances s instanceId t z mo cls = (s', Inr insts)"
    using rc f i ok by (simp add: createInstances_def assms(1,2,3) Let_def)
  then show ?thesis using styles by blast
qed

lemma removeExisting_ok:
  assumes "snd (destroyEach (instancesOf s instanceId)) = None"
  shows "\<exists>s1. removeExisting s instanceId t children = (s1, None)
     \<and> moduleClassCache s1 = moduleClassCache s \<and> moduleFiles s1 = moduleFiles s"
  using assms
  by (cases "destroyEach (instancesOf s instanceId)") (simp add: removeExisting_def emit_def)

lemma loadModuleClass_ok:
  assumes "t \<noteq> []"
    and "moduleClassCache s t = Some (Inr cls) \<or> (moduleClassCache s t = None \<and> moduleFiles s t = Inr cls)"
  shows "snd (loadModuleClass s t) = Inr (Some cls)"
  using assms by (auto simp: loadModuleClass_def emit_def Let_def)

lemma rebuildInstances_ok:
  assumes "modulesContainer s \<noteq> None" "moduleTypeOf s instanceId = Inr (t, z)" "t \<noteq> []"
    and "snd (destroyEach (instancesOf s instanceId)) = None"
    and "moduleClassCache s t = Some (Inr cls) \<or> (moduleClassCache s t = None \<and> moduleFiles s t = Inr cls)"
    and "\<forall>e. cls e \<noteq> None"
    and "mx_rows (matrixOptionsOf opts) = JNum (real r)" "mx_cols (matrixOptionsOf opts) = JNum (real c)"
      "mx_excludedCells (matrixOptionsOf opts) = JArr xs"
  shows "\<exists>s' insts. rebuildInstances s instanceId opts = (s', Inr insts)
     \<and> map (\<lambda>inst. el_style (inst_elem inst)) insts
         = map (\<lambda>cell. Some (cellStyle (real r) (real c) z (mx_border (matrixOptionsOf opts)) cell))
             (filter (\<lambda>(row, col). JStr (cellKey row col) \<notin> set xs) (gridCells (real r) (real c)))"
proof -
  obtain children where ch: "modulesContainer s = Some children"
    using assms(1) by auto
  obtain s1 where s1: "removeExisting s instanceId t children = (s1, None)"
      "moduleClassCache s1 = moduleClassCache s" "moduleFiles s1 = moduleFiles s"
    using removeExisting_ok [OF assms(4)] by blast
  obtain s2 r2 where ld: "loadModuleClass s1 t = (s2, r2)" by (meson surj_pair)
  have "r2 = Inr (Some cls)"
    using loadModuleClass_ok [of t s1 cls] assms(3,5) s1(2,3) ld by simp
  then have ld': "loadModuleClass s1 t = (s2, Inr (Some cls))" using ld by simp
  obtain s' insts where ci: "createInstances s2 instanceId t z (matrixOptionsOf opts) cls = (s', Inr insts)"
      "map (\<lambda>inst. el_style (inst_elem inst)) insts
         = map (\<lambda>cell. Some (cellStyle (real r) (real c) z (mx_border (matrixOptionsOf opts)) cell))
             (filter (\<lambda>(row, col). JStr (cellKey row col) \<notin> set xs) (gridCells (real r) (real c)))"
    using createInstances_ok [OF assms(7,8,9,6)] by blast
  have "rebuildInstances s instanceId opts = (s', Inr insts)"
    by (simp add: rebuildInstances_def ch assms(2,3) s1(1) ld' ci(1))
  then show ?thesis using ci(2) by blast
qed

lemma updateMatrix_instances:
  assumes "rebuildInstances s instanceId opts = (s1, Inr new)"
  shows "instancesOf (fst (updateMatrix s instanceId opts)) instanceId = new"
proof -
  have n: "instancesOf s1 instanceId = new"
    using rebuild_frame [OF assms] by (simp add: instancesOf_def)
  show ?thesis
  proof (cases "activeTrack s1")
    case None
    then show ?thesis using assms n by (simp add: updateMatrix.simps)
  next
    case (Some tr)
    show ?thesis
    proof (cases "constructorMethods tr instanceId")
      case (Inl e)
      then show ?thesis using assms n Some by (simp add: updateMatrix.simps)
    next
      case cm: (Inr ms)
      let ?f = "filter (\<lambda>method. mc_name method \<noteq> ''matrix'') ms"
      show ?thesis
      proof (cases "?f = []")
        case True
        then show ?thesis using assms n Some cm by (simp add: updateMatrix.simps)
      next
        case False
        obtain s' r where inv: "invokeMethods s1 ?f instanceId (Some new) = (s', r)"
          by (meson surj_pair)
        have "updateMatrix s instanceId opts = (s', r)"
          using assms Some cm False inv executeMethods_plain [OF filtered_constructor_plain]
          by (simp add: updateMatrix.simps)
        moreover have "activeModules s' = activeModules s1"
          using invokeMethods_frame [OF inv] by blast
        ultimately show ?thesis using n by (simp add: instancesOf_def)
      qed
    qed
  qed
qed


text \<open>
  C1.  When \<open>updateMatrix\<close> gets through (the container exists, the module type of the
  placement is found, no \<open>destroy\<close> of an instance it replaces throws, the class loads
  and its constructor returns), then for rows \<open>r\<close>, columns \<open>c\<close> and an array of
  excluded cells the placement ends with \<open>r * c\<close> instances less one for each valid cell
  key in the array, and their elements carry, rows outer and columns inner over the
  cells that are not excluded, width \<open>100 / c\<close>, height \<open>100 / r\<close>, top
  \<open>(100 / r) * (row - 1)\<close> and left \<open>(100 / c) * (col - 1)\<close>.
\<close>

theorem C1_grid_materialization:
  "modulesContainer s \<noteq> None \<and> moduleTypeOf s instanceId = Inr (t, z) \<and> t \<noteq> []
   \<and> snd (destroyEach (instancesOf s instanceId)) = None
   \<and> (moduleClassCache s t = Some (Inr cls) \<or> (moduleClassCache s t = None \<and> moduleFiles s t = Inr cls))
   \<and> (\<forall>e. cls e \<noteq> None)
   \<and> mx_rows (matrixOptionsOf opts) = JNum (real r) \<and> mx_cols (matrixOptionsOf opts) = JNum (real c)
   \<and> mx_excludedCells (matrixOptionsOf opts) = JArr xs
   \<longrightarrow>
     length (instancesOf (fst (updateMatrix s instanceId opts)) instanceId)
       = r * c - card ({k. JStr k \<in> set xs}
                       \<inter> {cellKey row col | row col. 1 \<le> row \<and> row \<le> r \<and> 1 \<le> col \<and> col \<le> c})
     \<and> map (\<lambda>inst. el_style (inst_elem inst)) (instancesOf (fst (updateMatrix s instanceId opts)) instanceId)
       = map (\<lambda>(row, col).
                Some \<lparr>css_width = 100 / real c, css_height = 100 / real r,
                      css_top = (100 / real r) * (real row - 1),
                      css_left = (100 / real c) * (real col - 1),
                      css_zIndex = z,
                      css_border = (if js_truthy (mx_border (matrixOptionsOf opts))
                                    then ''1px solid white'' else ''none'')\<rparr>)
           (filter (\<lambda>(row, col). JStr (cellKey row col) \<notin> set xs)
              (concat (map (\<lambda>row. map (\<lambda>col. (row, col)) [1..<Suc c]) [1..<Suc r])))"
proof (intro impI)
  assume h: "modulesContainer s \<noteq> None \<and> moduleTypeOf s instanceId = Inr (t, z) \<and> t \<noteq> []
   \<and> snd (destroyEach (instancesOf s instanceId)) = None
   \<and> (moduleClassCache s t = Some (Inr cls) \<or> (moduleClassCache s t = None \<and> moduleFiles s t = Inr cls))
   \<and> (\<forall>e. cls e \<noteq> None)
   \<and> mx_rows (matrixOptionsOf opts) = JNum (real r) \<and> mx_cols (matrixOptionsOf opts) = JNum (real c)
   \<and> mx_excludedCells (matrixOptionsOf opts) = JArr xs"
  let ?cells = "filter (\<lambda>(row, col). JStr (cellKey row col) \<notin> set xs) (gridCells (real r) (real c))"
  obtain s1 insts where rb: "rebuildInstances s instanceId opts = (s1, Inr insts)"
    and st: "map (\<lambda>inst. el_style (inst_elem inst)) insts
         = map (\<lambda>cell. Some (cellStyle (real r) (real c) z (mx_border (matrixOptionsOf opts)) cell)) ?cells"
  proof -
    from h have c1: "modulesContainer s \<noteq> None" and c2: "moduleTypeOf s instanceId = Inr (t, z)"
      and c3: "t \<noteq> []" and c4: "snd (destroyEach (instancesOf s instanceId)) = None"
      and c5: "moduleClassCache s t = Some (Inr cls) \<or> (moduleClassCache s t = None \<and> moduleFiles s t = Inr cls)"
      and c6: "\<forall>e. cls e \<noteq> None"
      and c7: "mx_rows (matrixOptionsOf opts) = JNum (real r)"
      and c8: "mx_cols (matrixOptionsOf opts) = JNum (real c)"
      and c9: "mx_excludedCells (matrixOptionsOf opts) = JArr xs"
      by simp_all
    show ?thesis
      using rebuildInstances_ok [OF c1 c2 c3 c4 c5 c6 c7 c8 c9] that by blast
  qed
  have fin: "instancesOf (fst (updateMatrix s instanceId opts)) instanceId = insts"
    using updateMatrix_instances [OF rb] .
  have "length insts = length (map (\<lambda>inst. el_style (inst_elem inst)) insts)"
    by simp
  also have "\<dots> = length ?cells"
    unfolding st by simp
  finally have len: "length insts = length ?cells" .
  have style: "(\<lambda>cell. Some (cellStyle (real r) (real c) z (mx_border (matrixOptionsOf opts)) cell))
      = (\<lambda>(row, col).
                Some \<lparr>css_width = 100 / real c, css_height = 100 / real r,
                      css_top = (100 / real r) * (real row - 1),
                      css_left = (100 / real c) * (real col - 1),
                      css_zIndex = z,
                      css_border = (if js_truthy (mx_border (matrixOptionsOf opts))
                                    then ''1px solid white'' else ''none'')\<rparr>)"
    by (auto simp: cellStyle_def)
  show "length (instancesOf (fst (updateMatrix s instanceId opts)) instanceId)
       = r * c - card ({k. JStr k \<in> set xs}
                       \<inter> {cellKey row col | row col. 1 \<le> row \<and> row \<le> r \<and> 1 \<le> col \<and> col \<le> c})
     \<and> map (\<lambda>inst. el_style (inst_elem inst)) (instancesOf (fst (updateMatrix s instanceId opts)) instanceId)
       = map (\<lambda>(row, col).
                Some \<lparr>css_width = 100 / real c, css_height = 100 / real r,
                      css_top = (100 / real r) * (real row - 1),
                      css_left = (100 / real c) * (real col - 1),
                      css_zIndex = z,
                      css_border = (if js_truthy (mx_border (matrixOptionsOf opts))
                                    then ''1px solid white'' else ''none'')\<rparr>)
           (filter (\<lambda>(row, col). JStr (cellKey row col) \<notin> set xs)
              (concat (map (\<lambda>row. map (\<lambda>col. (row, col)) [1..<Suc c]) [1..<Suc r])))"
    unfolding fin gridCells_nat [symmetric] style [symmetric]
    using len st retained_count [of xs r c] by simp
qed


theorem C1_grid_materialization_witness:
  "instancesOf (fst (updateMatrix (emit [MatrixUpdateStart ''P1''] introActive) ''P1'' (mc_options matrixCall))) ''P1''
     = [sampleCell 1 2, sampleCell 2 1, sampleCell 2 2]
   \<and> length (instancesOf (fst (updateMatrix (emit [MatrixUpdateStart ''P1''] introActive) ''P1''
                 (mc_options matrixCall))) ''P1'')
     = 2 * 2 - card ({k. JStr k \<in> set [JStr ''1-1'']}
                     \<inter> {cellKey row col | row col. 1 \<le> row \<and> row \<le> 2 \<and> 1 \<le> col \<and> col \<le> 2})
   \<and> map (\<lambda>inst. el_style (inst_elem inst))
        (instancesOf (fst (updateMatrix (emit [MatrixUpdateStart ''P1''] introActive) ''P1''
                 (mc_options matrixCall))) ''P1'')
     = map (\<lambda>(row, col).
                Some \<lparr>css_width = 100 / real 2, css_height = 100 / real 2,
                      css_top = (100 / real 2) * (real row - 1),
                      css_left = (100 / real 2) * (real col - 1),
                      css_zIndex = 1,
                      css_border = (if js_truthy (mx_border (matrixOptionsOf (mc_options matrixCall)))
                                    then ''1px solid white'' else ''none'')\<rparr>)
           (filter (\<lambda>(row, col). JStr (cellKey row col) \<notin> set [JStr ''1-1''])
              (concat (map (\<lambda>row. map (\<lambda>col. (row, col)) [1..<Suc 2]) [1..<Suc 2])))"
proof -
  let ?s = "emit [MatrixUpdateStart ''P1''] introActive"
  have a: "instancesOf (fst (updateMatrix ?s ''P1'' (mc_options matrixCall))) ''P1''
     = [sampleCell 1 2, sampleCell 2 1, sampleCell 2 2]"
    unfolding updateMatrix_intro by (simp add: instancesOf_def)
  have h: "modulesContainer ?s \<noteq> None \<and> moduleTypeOf ?s ''P1'' = Inr (''GridDots'', 1) \<and> ''GridDots'' \<noteq> []
   \<and> snd (destroyEach (instancesOf ?s ''P1'')) = None
   \<and> (moduleClassCache ?s ''GridDots'' = Some (Inr sampleClass)
       \<or> (moduleClassCache ?s ''GridDots'' = None \<and> moduleFiles ?s ''GridDots'' = Inr sampleClass))
   \<and> (\<forall>e. sampleClass e \<noteq> None)
   \<and> mx_rows (matrixOptionsOf (mc_options matrixCall)) = JNum (real 2)
   \<and> mx_cols (matrixOptionsOf (mc_options matrixCall)) = JNum (real 2)
   \<and> mx_excludedCells (matrixOptionsOf (mc_options matrixCall)) = JArr [JStr ''1-1'']"
    by (simp add: emit_def introActive_def initialProjector_def moduleTypeOf_def introTrack_def
          instancesOf_def sampleClass_def sample_matrixOptions)
  note c = C1_grid_materialization [of ?s "''P1''" "''GridDots''" 1 sampleClass "mc_options matrixCall" 2 2
      "[JStr ''1-1'']", THEN mp, OF h]
  show ?thesis
    by (intro conjI a c [THEN conjunct1] c [THEN conjunct2])
qed

end
